theory Spec2Isabelle
  imports Complex_Main "HOL-Library.Log_Nat"
begin

section \<open>JavaScript numbers\<close>

text \<open>
  The yield calculator of \<^verbatim>\<open>server/src/helpers.ts\<close> computes on JavaScript
  numbers, which are IEEE 754 binary64 values. A finite value is kept as the rational
  it denotes; \<open>Fin 0\<close> is \<open>+0\<close> and \<open>NZero\<close> is \<open>-0\<close>. Every arithmetic
  operation computes the exact rational result and rounds it to the nearest binary64
  value, ties to even, as the language standard prescribes.
\<close>

datatype jsnum = NaN | PInf | NInf | NZero | Fin rat

fun is_neg :: "jsnum \<Rightarrow> bool" where
  "is_neg NInf = True"
| "is_neg NZero = True"
| "is_neg (Fin q) = (q < 0)"
| "is_neg _ = False"

fun is_zero :: "jsnum \<Rightarrow> bool" where
  "is_zero NZero = True"
| "is_zero (Fin q) = (q = 0)"
| "is_zero _ = False"

fun is_inf :: "jsnum \<Rightarrow> bool" where
  "is_inf PInf = True"
| "is_inf NInf = True"
| "is_inf _ = False"

fun is_finite :: "jsnum \<Rightarrow> bool" where
  "is_finite NZero = True"
| "is_finite (Fin q) = True"
| "is_finite _ = False"

fun val :: "jsnum \<Rightarrow> rat" where
  "val (Fin q) = q"
| "val _ = 0"

definition signed_inf :: "bool \<Rightarrow> jsnum" where
  "signed_inf neg = (if neg then NInf else PInf)"

definition signed_zero :: "bool \<Rightarrow> jsnum" where
  "signed_zero neg = (if neg then NZero else Fin 0)"

text \<open>\<open>pow2 e\<close> is \<open>2\<close> to the integer power \<open>e\<close>, \<open>pow10\<close> likewise.\<close>

definition pow2 :: "int \<Rightarrow> 'a::field" where
  "pow2 e = (if 0 \<le> e then 2 ^ nat e else 1 / 2 ^ nat (- e))"

definition pow10 :: "int \<Rightarrow> rat" where
  "pow10 e = (if 0 \<le> e then 10 ^ nat e else 1 / 10 ^ nat (- e))"

text \<open>
  \<open>ilog2 a\<close> is the binary exponent of a positive number: the integer \<open>k\<close> with
  \<open>2^k \<le> a < 2^(k+1)\<close>, read off the bit length of the integer part of \<open>a\<close> or of
  \<open>1 / a\<close>.
\<close>

definition ilog2 :: "'a::floor_ceiling \<Rightarrow> int" where
  "ilog2 a = (if 1 \<le> a then bitlen \<lfloor>a\<rfloor> - 1 else - bitlen (\<lceil>1 / a\<rceil> - 1))"

definition round_half_even :: "'a::floor_ceiling \<Rightarrow> int" where
  "round_half_even x =
     (let f = \<lfloor>x\<rfloor>; d = x - of_int f
      in if d < 1 / 2 then f else if 1 / 2 < d then f + 1
         else if even f then f else f + 1)"

text \<open>
  Rounding of a magnitude \<open>a \<ge> 0\<close> to the binary64 grid: 53 significant bits, the
  spacing never below \<open>2^-1074\<close> (subnormal numbers). \<open>round_sig a\<close> is the pair of
  the integer significand \<open>m\<close> and the exponent \<open>e\<close> of the rounded value \<open>m * 2^e\<close>,
  which may be \<open>0\<close> (underflow) or \<open>2^1024\<close> and more (overflow). The magnitude is a
  rational for the arithmetic operators and a real for the ideal power below.
\<close>

definition round_sig :: "'a::floor_ceiling \<Rightarrow> int \<times> int" where
  "round_sig a =
     (let e = max (ilog2 a) (- 1022) - 52
      in (round_half_even (a / pow2 e), e))"

definition of_sig :: "bool \<Rightarrow> int \<times> int \<Rightarrow> jsnum" where
  "of_sig neg me =
     (let r = of_int (fst me) * pow2 (snd me)
      in if 2 ^ 1024 \<le> r then signed_inf neg
         else if r = 0 then signed_zero neg
         else Fin (if neg then - r else r))"

definition rnd :: "bool \<Rightarrow> rat \<Rightarrow> jsnum" where
  "rnd neg a = of_sig neg (round_sig a)"

definition rnd_real :: "bool \<Rightarrow> real \<Rightarrow> jsnum" where
  "rnd_real neg a = of_sig neg (round_sig a)"

text \<open>A numeric literal of the source, such as \<^verbatim>\<open>1.02\<close>, denotes the nearest binary64 value.\<close>

definition js_lit :: "rat \<Rightarrow> jsnum" where
  "js_lit q = rnd (q < 0) \<bar>q\<bar>"

text \<open>The operators \<^verbatim>\<open>*\<close>, \<^verbatim>\<open>/\<close>, \<^verbatim>\<open>+\<close>, unary \<^verbatim>\<open>-\<close> and binary \<^verbatim>\<open>-\<close> on numbers.\<close>

definition fmul :: "jsnum \<Rightarrow> jsnum \<Rightarrow> jsnum" where
  "fmul x y =
     (if x = NaN \<or> y = NaN then NaN
      else if is_inf x \<or> is_inf y then
        (if is_zero x \<or> is_zero y then NaN else signed_inf (is_neg x \<noteq> is_neg y))
      else rnd (is_neg x \<noteq> is_neg y) (\<bar>val x\<bar> * \<bar>val y\<bar>))"

definition fdiv :: "jsnum \<Rightarrow> jsnum \<Rightarrow> jsnum" where
  "fdiv x y =
     (if x = NaN \<or> y = NaN then NaN
      else if is_inf x then
        (if is_inf y then NaN else signed_inf (is_neg x \<noteq> is_neg y))
      else if is_inf y then signed_zero (is_neg x \<noteq> is_neg y)
      else if is_zero y then
        (if is_zero x then NaN else signed_inf (is_neg x \<noteq> is_neg y))
      else rnd (is_neg x \<noteq> is_neg y) (\<bar>val x\<bar> / \<bar>val y\<bar>))"

definition fadd :: "jsnum \<Rightarrow> jsnum \<Rightarrow> jsnum" where
  "fadd x y =
     (if x = NaN \<or> y = NaN then NaN
      else if is_inf x then (if is_inf y \<and> x \<noteq> y then NaN else x)
      else if is_inf y then y
      else if val x + val y = 0 then signed_zero (is_neg x \<and> is_neg y)
      else rnd (val x + val y < 0) \<bar>val x + val y\<bar>)"

fun fneg :: "jsnum \<Rightarrow> jsnum" where
  "fneg NaN = NaN"
| "fneg PInf = NInf"
| "fneg NInf = PInf"
| "fneg NZero = Fin 0"
| "fneg (Fin q) = (if q = 0 then NZero else Fin (- q))"

definition fsub :: "jsnum \<Rightarrow> jsnum \<Rightarrow> jsnum" where
  "fsub x y = fadd x (fneg y)"

text \<open>
  The operator \<^verbatim>\<open>**\<close>. The language standard fixes its value in the cases below and
  leaves the remaining one (finite non-zero base, finite non-zero exponent, and an
  integral exponent when the base is negative) to the engine, as an approximation of the
  real power. That approximation is the parameter \<open>pw\<close>.
\<close>

definition is_integral :: "jsnum \<Rightarrow> bool" where
  "is_integral y = (is_finite y \<and> of_int \<lfloor>val y\<rfloor> = val y)"

definition is_odd_integral :: "jsnum \<Rightarrow> bool" where
  "is_odd_integral y = (is_integral y \<and> odd \<lfloor>val y\<rfloor>)"

definition js_pow :: "(jsnum \<Rightarrow> jsnum \<Rightarrow> jsnum) \<Rightarrow> jsnum \<Rightarrow> jsnum \<Rightarrow> jsnum" where
  "js_pow pw b y =
     (if y = NaN then NaN
      else if is_zero y then Fin 1
      else if b = NaN then NaN
      else if b = PInf then (if is_neg y then Fin 0 else PInf)
      else if b = NInf then
        (if is_neg y then (if is_odd_integral y then NZero else Fin 0)
         else (if is_odd_integral y then NInf else PInf))
      else if b = Fin 0 then (if is_neg y then PInf else Fin 0)
      else if b = NZero then
        (if is_neg y then (if is_odd_integral y then NInf else PInf)
         else (if is_odd_integral y then NZero else Fin 0))
      else if y = PInf then
        (if 1 < \<bar>val b\<bar> then PInf else if \<bar>val b\<bar> = 1 then NaN else Fin 0)
      else if y = NInf then
        (if 1 < \<bar>val b\<bar> then Fin 0 else if \<bar>val b\<bar> = 1 then NaN else PInf)
      else if val b < 0 \<and> \<not> is_integral y then NaN
      else pw b y)"

section \<open>The yield calculator\<close>

text \<open>
  A call either returns a value or throws; an asynchronous call resolves or rejects.
  \<open>TypeError\<close> is what the engine throws on a property read of \<^verbatim>\<open>undefined\<close> or
  \<^verbatim>\<open>null\<close> and on a call of something that is no function; \<open>AxiosError\<close> is
  the rejection of a failed request. The last three kinds are the error taxonomy of
  the specification; no code path of the source constructs them.
\<close>

datatype error = TypeError | AxiosError | QuoteUnavailable | MalformedQuote | InvalidArbRatio

type_synonym 'a result = "error + 'a"

definition calcArb :: "jsnum \<Rightarrow> jsnum \<Rightarrow> jsnum result" where
  "calcArb redeemRate price = Inr (fdiv redeemRate price)"

definition calcAnnualizedArb ::
  "(jsnum \<Rightarrow> jsnum \<Rightarrow> jsnum) \<Rightarrow> jsnum \<Rightarrow> jsnum \<Rightarrow> jsnum result" where
  "calcAnnualizedArb pw arb DAYS_TO_REDEEM =
     Inr (fmul (fsub (js_pow pw arb (fdiv (Fin 365) DAYS_TO_REDEEM)) (Fin 1)) (Fin 100))"

definition calcNetDeltaNeutral :: "jsnum \<Rightarrow> jsnum \<Rightarrow> jsnum \<Rightarrow> jsnum result" where
  "calcNetDeltaNeutral annualizedArb collateralRatio netBorrowRate =
     Inr (fsub (fmul annualizedArb collateralRatio) netBorrowRate)"

text \<open>
  The correctly rounded power, one engine among those the standard admits. It stands
  for the engine wherever a closed statement needs a particular one.
\<close>

definition ideal_pow :: "jsnum \<Rightarrow> jsnum \<Rightarrow> jsnum" where
  "ideal_pow b y =
     rnd_real (is_neg b \<and> is_odd_integral y) (\<bar>real_of_rat (val b)\<bar> powr real_of_rat (val y))"

text \<open>
  What a statement about the value of a power asks of the engine: at the base \<open>b\<close> and
  the exponent \<open>y\<close> its result is finite and within the relative error \<open>2^-40\<close> of
  the real power. Engines are accurate to about \<open>2^-52\<close>.
\<close>

definition pow_accurate :: "(jsnum \<Rightarrow> jsnum \<Rightarrow> jsnum) \<Rightarrow> jsnum \<Rightarrow> jsnum \<Rightarrow> bool" where
  "pow_accurate pw b y =
     (\<exists>p. pw b y = Fin p \<and>
          \<bar>real_of_rat p - real_of_rat (val b) powr real_of_rat (val y)\<bar>
            \<le> real_of_rat (val b) powr real_of_rat (val y) / 2 ^ 40)"

text \<open>The comparisons \<^verbatim>\<open><=\<close> and \<^verbatim>\<open><\<close> on numbers; both are false on \<open>NaN\<close>.\<close>

definition js_le :: "jsnum \<Rightarrow> jsnum \<Rightarrow> bool" where
  "js_le x y =
     (x \<noteq> NaN \<and> y \<noteq> NaN \<and>
      (x = NInf \<or> y = PInf \<or> (is_finite x \<and> is_finite y \<and> val x \<le> val y)))"

definition js_lt :: "jsnum \<Rightarrow> jsnum \<Rightarrow> bool" where
  "js_lt x y =
     (x \<noteq> NaN \<and> y \<noteq> NaN \<and>
      ((x = NInf \<and> y \<noteq> NInf) \<or> (y = PInf \<and> x \<noteq> PInf) \<or>
       (is_finite x \<and> is_finite y \<and> val x < val y)))"

section \<open>Values of a provider response\<close>

text \<open>
  \<^verbatim>\<open>res.data\<close> is typed \<^verbatim>\<open>any\<close>: whatever the response body parsed to. \<open>Str\<close>
  holds the code units of a string (below 256 here), \<open>Obj\<close> the properties of an
  object in order, the first binding of a key being the one a read finds.
\<close>

datatype jsval =
  Undefined | Null | Bool bool | Number jsnum | Str string
  | Arr "jsval list" | Obj "(string \<times> jsval) list"

definition bind_result :: "'a result \<Rightarrow> ('a \<Rightarrow> 'b result) \<Rightarrow> 'b result" where
  "bind_result r f = (case r of Inl e \<Rightarrow> Inl e | Inr v \<Rightarrow> f v)"

text \<open>
  The property read \<^verbatim>\<open>v.k\<close>, for the keys the source reads (\<^verbatim>\<open>asset\<close>,
  \<^verbatim>\<open>borrow_apy\<close>, \<^verbatim>\<open>supply_apy\<close>, \<^verbatim>\<open>host_zone\<close>, \<^verbatim>\<open>redemption_rate\<close>): none of
  them is a property of a primitive, of an array or of the object prototype.
\<close>

definition get_prop :: "jsval \<Rightarrow> string \<Rightarrow> jsval result" where
  "get_prop v k =
     (case v of
        Undefined \<Rightarrow> Inl TypeError
      | Null \<Rightarrow> Inl TypeError
      | Obj kvs \<Rightarrow> Inr (case map_of kvs k of None \<Rightarrow> Undefined | Some w \<Rightarrow> w)
      | _ \<Rightarrow> Inr Undefined)"

text \<open>The indexed read \<^verbatim>\<open>v[0]\<close>.\<close>

definition get_index0 :: "jsval \<Rightarrow> jsval result" where
  "get_index0 v =
     (case v of
        Undefined \<Rightarrow> Inl TypeError
      | Null \<Rightarrow> Inl TypeError
      | Arr xs \<Rightarrow> Inr (case xs of [] \<Rightarrow> Undefined | x # _ \<Rightarrow> x)
      | Str s \<Rightarrow> Inr (case s of [] \<Rightarrow> Undefined | c # _ \<Rightarrow> Str [c])
      | Obj kvs \<Rightarrow> Inr (case map_of kvs ''0'' of None \<Rightarrow> Undefined | Some w \<Rightarrow> w)
      | _ \<Rightarrow> Inr Undefined)"

text \<open>
  \<^verbatim>\<open>data.filter(f)\<close>: the array method when \<^verbatim>\<open>data\<close> is an array, the callback
  applied to the elements in order; anything else has no callable \<^verbatim>\<open>filter\<close>.
\<close>

fun js_filter :: "(jsval \<Rightarrow> bool result) \<Rightarrow> jsval list \<Rightarrow> jsval list result" where
  "js_filter f [] = Inr []"
| "js_filter f (x # xs) =
     (case f x of
        Inl e \<Rightarrow> Inl e
      | Inr b \<Rightarrow>
          (case js_filter f xs of
             Inl e \<Rightarrow> Inl e
           | Inr r \<Rightarrow> Inr (if b then x # r else r)))"

definition call_filter :: "jsval \<Rightarrow> (jsval \<Rightarrow> bool result) \<Rightarrow> jsval list result" where
  "call_filter data f = (case data of Arr xs \<Rightarrow> js_filter f xs | _ \<Rightarrow> Inl TypeError)"

text \<open>The callback \<^verbatim>\<open>(x) => x.asset === symbol\<close>.\<close>

definition asset_is :: "string \<Rightarrow> jsval \<Rightarrow> bool result" where
  "asset_is symbol x = bind_result (get_prop x ''asset'') (\<lambda>a. Inr (a = Str symbol))"

text \<open>The pattern \<^verbatim>\<open>const [first] = xs\<close>.\<close>

definition destructure_first :: "jsval list \<Rightarrow> jsval" where
  "destructure_first xs = (case xs of [] \<Rightarrow> Undefined | x # _ \<Rightarrow> x)"

subsection \<open>parseFloat\<close>

definition is_ws :: "char \<Rightarrow> bool" where
  "is_ws c = (c \<in> set [CHR 0x09, CHR 0x0A, CHR 0x0B, CHR 0x0C, CHR 0x0D, CHR 0x20, CHR 0xA0])"

definition is_digit :: "char \<Rightarrow> bool" where
  "is_digit c = (c \<in> set ''0123456789'')"

definition digit_val :: "char \<Rightarrow> nat" where
  "digit_val c = of_char c - 48"

definition digits_val :: "string \<Rightarrow> nat" where
  "digits_val ds = foldl (\<lambda>n c. 10 * n + digit_val c) 0 ds"

text \<open>The digits of an exponent, after the optional sign; none means no exponent part.\<close>

definition exponent_digits :: "bool \<Rightarrow> string \<Rightarrow> int" where
  "exponent_digits neg s =
     (let ds = takeWhile is_digit s
      in if ds = [] then 0 else if neg then - int (digits_val ds) else int (digits_val ds))"

definition parse_exponent :: "string \<Rightarrow> int" where
  "parse_exponent s =
     (case s of
        [] \<Rightarrow> 0
      | c # t \<Rightarrow>
          if c = CHR ''e'' \<or> c = CHR ''E'' then
            (case t of
               [] \<Rightarrow> 0
             | d # u \<Rightarrow>
                 if d = CHR ''+'' then exponent_digits False u
                 else if d = CHR ''-'' then exponent_digits True u
                 else exponent_digits False t)
          else 0)"

text \<open>
  The longest prefix that is an unsigned decimal literal: \<^verbatim>\<open>Infinity\<close>, or digits with
  an optional fraction and an optional exponent, at least one digit before the exponent.
\<close>

definition parse_unsigned :: "bool \<Rightarrow> string \<Rightarrow> jsnum" where
  "parse_unsigned neg s =
     (if take 8 s = ''Infinity'' then signed_inf neg
      else
        (let ip = takeWhile is_digit s; r1 = dropWhile is_digit s
         in if r1 \<noteq> [] \<and> hd r1 = CHR ''.'' then
              (let fp = takeWhile is_digit (tl r1); r2 = dropWhile is_digit (tl r1)
               in if ip = [] \<and> fp = [] then NaN
                  else rnd neg (of_nat (digits_val (ip @ fp))
                                * pow10 (parse_exponent r2 - int (length fp))))
            else if ip = [] then NaN
            else rnd neg (of_nat (digits_val ip) * pow10 (parse_exponent r1))))"

definition parse_float_string :: "string \<Rightarrow> jsnum" where
  "parse_float_string s =
     (case dropWhile is_ws s of
        [] \<Rightarrow> NaN
      | c # u \<Rightarrow>
          if c = CHR ''-'' then parse_unsigned True u
          else if c = CHR ''+'' then parse_unsigned False u
          else parse_unsigned False (c # u))"

text \<open>
  \<^verbatim>\<open>parseFloat(v)\<close> first converts \<open>v\<close> to a string, then parses that string.
  The conversion throws a \<open>TypeError\<close> on an object that has a \<^verbatim>\<open>toString\<close>
  property of its own: the property of a parsed body is no function, and the inherited
  \<^verbatim>\<open>valueOf\<close> returns the object itself. The string of an array joins the strings of
  all its elements (\<^verbatim>\<open>null\<close> contributes the empty string), so it throws when an
  element does.
\<close>

fun string_throws :: "jsval \<Rightarrow> bool" and strings_throw :: "jsval list \<Rightarrow> bool" where
  "string_throws (Obj kvs) = (map_of kvs ''toString'' \<noteq> None)"
| "string_throws (Arr xs) = strings_throw xs"
| "string_throws _ = False"
| "strings_throw [] = False"
| "strings_throw (x # xs) = (string_throws x \<or> strings_throw xs)"

text \<open>
  The number read off the string of a value whose conversion does not throw. The string
  of a number parses back to that number (\<open>-0\<close> prints as \<^verbatim>\<open>0\<close>); the string of an
  array starts with the string of its first element, then a comma; the strings of the
  other values (\<^verbatim>\<open>undefined\<close>, \<^verbatim>\<open>null\<close>, \<^verbatim>\<open>true\<close>, \<^verbatim>\<open>[object Object]\<close>) have no
  numeric prefix.
\<close>

fun numeric_prefix :: "jsval \<Rightarrow> jsnum" where
  "numeric_prefix (Str s) = parse_float_string s"
| "numeric_prefix (Number n) = (if n = NZero then Fin 0 else n)"
| "numeric_prefix (Arr (x # xs)) = numeric_prefix x"
| "numeric_prefix _ = NaN"

definition parseFloat :: "jsval \<Rightarrow> jsnum result" where
  "parseFloat v = (if string_throws v then Inl TypeError else Inr (numeric_prefix v))"

section \<open>The quote fetcher\<close>

text \<open>
  Each query takes the outcome of its \<^verbatim>\<open>axios.get\<close>: the rejection, or \<^verbatim>\<open>res.data\<close>.
  The callback of \<^verbatim>\<open>then\<close> runs on a resolved request, and what it throws rejects
  the promise.
\<close>

definition queryAtomUmeeHedge :: "jsval result \<Rightarrow> jsnum result" where
  "queryAtomUmeeHedge res =
     bind_result res (\<lambda>data.
     bind_result (call_filter data (asset_is ''ATOM'')) (\<lambda>matches.
     bind_result (get_prop (destructure_first matches) ''borrow_apy'') (\<lambda>borrow_apy.
     parseFloat borrow_apy)))"

definition queryUsdcSupplyRate :: "jsval result \<Rightarrow> jsnum result" where
  "queryUsdcSupplyRate res =
     bind_result res (\<lambda>data.
     bind_result (call_filter data (asset_is ''USDC'')) (\<lambda>matches.
     bind_result (get_prop (destructure_first matches) ''supply_apy'') (\<lambda>supply_apy.
     parseFloat supply_apy)))"

definition queryStAtomRedemptionRate :: "jsval result \<Rightarrow> jsnum result" where
  "queryStAtomRedemptionRate res =
     bind_result res (\<lambda>data.
     bind_result (get_prop data ''host_zone'') (\<lambda>host_zone.
     bind_result (get_index0 host_zone) (\<lambda>zone.
     bind_result (get_prop zone ''redemption_rate'') (\<lambda>redemption_rate.
     parseFloat redemption_rate))))"

text \<open>
  \<^verbatim>\<open>calcNetBorrowRate\<close> awaits \<^verbatim>\<open>queryUsdcSupplyRate()\<close>; \<open>res\<close> is the outcome of the
  request that call makes.
\<close>

definition calcNetBorrowRate :: "jsval result \<Rightarrow> jsnum \<Rightarrow> jsnum \<Rightarrow> jsnum result" where
  "calcNetBorrowRate res borrowRate collateralRatio =
     bind_result (queryUsdcSupplyRate res) (\<lambda>USDC_SUPPLY_RATE.
     Inr (fsub (fmul borrowRate collateralRatio) USDC_SUPPLY_RATE))"

section \<open>Evaluation of the rounding on numerals\<close>

lemma bitlen_one: "bitlen 1 = 1"
  by (simp add: bitlen_alt_def)

lemma bitlen_Bit0: "bitlen (numeral (Num.Bit0 n)) = bitlen (numeral n) + 1"
  by (subst compute_bitlen) simp

lemma bitlen_Bit1: "bitlen (numeral (Num.Bit1 n)) = bitlen (numeral n) + 1"
  by (subst compute_bitlen) simp

lemma floor_rat_numeral: "\<lfloor>numeral a / numeral b :: rat\<rfloor> = numeral a div numeral b"
  using floor_divide_of_int_eq [of "numeral a" "numeral b", where ?'a = rat] by simp

lemma floor_rat_one_numeral: "\<lfloor>1 / numeral b :: rat\<rfloor> = 1 div numeral b"
  using floor_divide_of_int_eq [of 1 "numeral b", where ?'a = rat] by simp

lemma ceiling_rat_numeral:
  "\<lceil>numeral a / numeral b :: rat\<rceil> = - ((- numeral a) div numeral b)"
  using floor_divide_of_int_eq [of "- numeral a" "numeral b", where ?'a = rat]
  by (simp add: ceiling_def)

lemma ceiling_rat_one_numeral: "\<lceil>1 / numeral b :: rat\<rceil> = - ((- 1) div numeral b)"
  using floor_divide_of_int_eq [of "- 1" "numeral b", where ?'a = rat]
  by (simp add: ceiling_def)

lemmas rnd_eval =
  bitlen_one bitlen_Bit0 bitlen_Bit1 floor_rat_numeral floor_rat_one_numeral
  ceiling_rat_numeral ceiling_rat_one_numeral
  rnd_def round_sig_def of_sig_def ilog2_def round_half_even_def Let_def pow2_def
  signed_inf_def signed_zero_def js_lit_def

lemmas op_eval = fmul_def fdiv_def fadd_def fsub_def js_pow_def
  is_integral_def is_odd_integral_def

lemmas parse_eval =
  parse_float_string_def parse_unsigned_def parse_exponent_def exponent_digits_def
  digits_val_def digit_val_def is_digit_def is_ws_def pow10_def

lemmas query_eval =
  queryAtomUmeeHedge_def queryUsdcSupplyRate_def queryStAtomRedemptionRate_def
  calcNetBorrowRate_def bind_result_def call_filter_def asset_is_def get_prop_def
  get_index0_def destructure_first_def parseFloat_def

text \<open>
  The rounding at a few telling points: a literal that is no binary fraction, a tie
  (to the even significand, downwards and upwards), and the product \<^verbatim>\<open>0.1 * 3\<close>,
  which is not the literal \<^verbatim>\<open>0.3\<close>.
\<close>

lemma js_lit_tenth: "js_lit (1 / 10) = Fin (3602879701896397 / 36028797018963968)"
  by (simp add: rnd_eval)

lemma rnd_tie_down: "rnd False (2 ^ 53 + 1) = Fin (2 ^ 53)"
  by (simp add: rnd_eval)

lemma rnd_tie_up: "rnd False (2 ^ 53 + 3) = Fin (2 ^ 53 + 4)"
  by (simp add: rnd_eval)

lemma tenth_times_three: "fmul (js_lit (1 / 10)) (Fin 3) \<noteq> js_lit (3 / 10)"
  by (simp add: rnd_eval fmul_def)

section \<open>Accuracy of the rounding\<close>

lemma pow2_powi: "pow2 e = (2::'a::linordered_field) powi e"
  by (simp add: pow2_def power_int_def power_one_over inverse_eq_divide)

lemma pow2_pos: "0 < (pow2 e :: 'a::linordered_field)"
  by (simp add: pow2_powi)

lemma pow2_add: "pow2 (a + b) = (pow2 a * pow2 b :: 'a::linordered_field)"
  by (simp add: pow2_powi power_int_add)

lemma pow2_neg: "pow2 (- e) = (1 / pow2 e :: 'a::linordered_field)"
  by (simp add: pow2_powi power_int_minus inverse_eq_divide)

lemma pow2_nat: "0 \<le> e \<Longrightarrow> pow2 e = (2::'a::linordered_field) ^ nat e"
  by (simp add: pow2_def)

lemma pow2_mono: "a \<le> b \<Longrightarrow> pow2 a \<le> (pow2 b :: 'a::linordered_field)"
  by (simp add: pow2_powi power_int_increasing)

lemma bitlen_pos: "0 < n \<Longrightarrow> 1 \<le> bitlen n"
  using bitlen_eq_zero_iff [of n] bitlen_nonneg [of n] by linarith

lemma ilog2_ge_one:
  fixes a :: "'a::floor_ceiling"
  assumes "1 \<le> a"
  shows "pow2 (ilog2 a) \<le> a \<and> a < pow2 (ilog2 a + 1)"
proof -
  let ?n = "\<lfloor>a\<rfloor>"
  have n: "0 < ?n" using assms by simp
  have j: "1 \<le> bitlen ?n" by (rule bitlen_pos [OF n])
  have lo: "2 ^ nat (bitlen ?n - 1) \<le> ?n" and hi: "?n < 2 ^ nat (bitlen ?n)"
    using bitlen_bounds [OF n] by simp_all
  have "(of_int (2 ^ nat (bitlen ?n - 1)) :: 'a) \<le> of_int ?n"
    using lo by (simp only: of_int_le_iff)
  also have "\<dots> \<le> a" by simp
  finally have 1: "(2::'a) ^ nat (bitlen ?n - 1) \<le> a" by simp
  have "?n + 1 \<le> 2 ^ nat (bitlen ?n)" using hi by simp
  then have "(of_int (?n + 1) :: 'a) \<le> of_int (2 ^ nat (bitlen ?n))"
    by (simp only: of_int_le_iff)
  then have "(of_int ?n :: 'a) + 1 \<le> 2 ^ nat (bitlen ?n)" by simp
  moreover have "a < of_int ?n + 1" using floor_correct [of a] by simp
  ultimately have 2: "a < (2::'a) ^ nat (bitlen ?n)" by (rule less_le_trans [rotated])
  show ?thesis
    using assms j 1 2 by (simp add: ilog2_def pow2_nat)
qed

lemma ilog2_lt_one:
  fixes a :: "'a::floor_ceiling"
  assumes "0 < a" "a < 1"
  shows "pow2 (ilog2 a) \<le> a \<and> a < pow2 (ilog2 a + 1)"
proof -
  let ?b = "1 / a"
  let ?n = "\<lceil>?b\<rceil> - 1"
  have b: "1 < ?b" using assms by simp
  then have "1 < \<lceil>?b\<rceil>" by (simp add: less_ceiling_iff)
  then have n: "0 < ?n" by simp
  have nb: "of_int ?n < ?b" and bn: "?b \<le> of_int ?n + 1"
    using ceiling_correct [of ?b] by simp_all
  let ?j = "bitlen ?n"
  have j: "1 \<le> ?j" by (rule bitlen_pos [OF n])
  have lo: "2 ^ nat (?j - 1) \<le> ?n" and hi: "?n < 2 ^ nat ?j"
    using bitlen_bounds [OF n] by simp_all
  have "(of_int (2 ^ nat (?j - 1)) :: 'a) \<le> of_int ?n"
    using lo by (simp only: of_int_le_iff)
  with nb have 1: "(2::'a) ^ nat (?j - 1) < ?b" by simp
  have "?n + 1 \<le> 2 ^ nat ?j" using hi by simp
  then have "(of_int (?n + 1) :: 'a) \<le> of_int (2 ^ nat ?j)"
    by (simp only: of_int_le_iff)
  then have "(of_int ?n :: 'a) + 1 \<le> 2 ^ nat ?j" by simp
  with bn have 2: "?b \<le> (2::'a) ^ nat ?j" by (rule order_trans)
  have e: "ilog2 a = - ?j" using assms by (simp add: ilog2_def)
  have "pow2 (- ?j) = (1 / 2 ^ nat ?j :: 'a)"
    using j by (simp add: pow2_neg pow2_nat)
  moreover have "(1 / 2 ^ nat ?j :: 'a) \<le> a"
    using 2 assms(1) by (simp add: field_simps)
  moreover have "pow2 (- ?j + 1) = (1 / 2 ^ nat (?j - 1) :: 'a)"
    using j pow2_neg [of "?j - 1", where ?'a = 'a] by (simp add: pow2_nat)
  moreover have "a < (1 / 2 ^ nat (?j - 1) :: 'a)"
    using 1 assms(1) by (simp add: field_simps)
  ultimately show ?thesis using e by simp
qed

lemma ilog2_bounds:
  fixes a :: "'a::floor_ceiling"
  assumes "0 < a"
  shows "pow2 (ilog2 a) \<le> a" and "a < pow2 (ilog2 a + 1)"
  using ilog2_ge_one [of a] ilog2_lt_one [of a] assms by (cases "1 \<le> a"; simp)+

lemma round_half_even_error:
  fixes x :: "'a::floor_ceiling"
  shows "\<bar>of_int (round_half_even x) - x\<bar> \<le> 1 / 2"
proof -
  have "of_int \<lfloor>x\<rfloor> \<le> x" "x < of_int \<lfloor>x\<rfloor> + 1" by linarith+
  then show ?thesis
    by (auto simp: round_half_even_def Let_def abs_le_iff)
qed


lemma pow2_strict_mono: "a < b \<Longrightarrow> pow2 a < (pow2 b :: 'a::linordered_field)"
  by (simp add: pow2_powi power_int_strict_increasing)

lemma round_sig_normal:
  fixes a :: "'a::floor_ceiling"
  assumes "pow2 (- 1022) \<le> a"
  shows "\<bar>of_int (fst (round_sig a)) * pow2 (snd (round_sig a)) - a\<bar> \<le> a / 2 ^ 53"
proof -
  have a: "0 < a"
    using assms pow2_pos [of "- 1022", where ?'a = 'a] by linarith
  let ?k = "ilog2 a"
  let ?e = "?k - 52"
  have k: "- 1022 \<le> ?k"
  proof (rule ccontr)
    assume "\<not> - 1022 \<le> ?k"
    then have "?k + 1 \<le> - 1022" by simp
    then have "pow2 (?k + 1) \<le> (pow2 (- 1022) :: 'a)" by (rule pow2_mono)
    with assms ilog2_bounds(2) [OF a] show False by linarith
  qed
  then have e: "snd (round_sig a) = ?e" and m: "fst (round_sig a) = round_half_even (a / pow2 ?e)"
    by (simp_all add: round_sig_def Let_def max_def)
  have pe: "0 < (pow2 ?e :: 'a)" by (rule pow2_pos)
  have "pow2 ?k = (pow2 ?e * pow2 52 :: 'a)"
    using pow2_add [of ?e 52, where ?'a = 'a] by simp
  then have "pow2 ?e * 2 ^ 52 \<le> a"
    using ilog2_bounds(1) [OF a] by (simp add: pow2_nat)
  then have pa: "pow2 ?e / 2 \<le> a / 2 ^ 53"
    by (simp add: field_simps)
  have "\<bar>of_int (round_half_even (a / pow2 ?e)) - a / pow2 ?e\<bar> \<le> 1 / 2"
    by (rule round_half_even_error)
  then have "\<bar>of_int (round_half_even (a / pow2 ?e)) - a / pow2 ?e\<bar> * pow2 ?e \<le> 1 / 2 * pow2 ?e"
    using pe by (simp only: mult_le_cancel_right_pos)
  moreover have "\<bar>of_int (round_half_even (a / pow2 ?e)) - a / pow2 ?e\<bar> * pow2 ?e
      = \<bar>(of_int (round_half_even (a / pow2 ?e)) - a / pow2 ?e) * pow2 ?e\<bar>"
    using pe by (simp add: abs_mult)
  moreover have "(of_int (round_half_even (a / pow2 ?e)) - a / pow2 ?e) * pow2 ?e
      = of_int (round_half_even (a / pow2 ?e)) * pow2 ?e - a"
    using pe by (simp add: left_diff_distrib)
  ultimately have "\<bar>of_int (round_half_even (a / pow2 ?e)) * pow2 ?e - a\<bar> \<le> pow2 ?e / 2"
    by simp
  with pa show ?thesis
    unfolding e m by linarith
qed

lemma of_sig_finite:
  assumes "0 < of_int m * (pow2 e :: rat)" "of_int m * (pow2 e :: rat) < 2 ^ 1024"
  shows "of_sig neg (m, e) = Fin (if neg then - (of_int m * pow2 e) else of_int m * pow2 e)"
proof -
  have "\<not> 2 ^ 1024 \<le> of_int m * (pow2 e :: rat)"
    using assms(2) by (simp only: not_le)
  moreover have "of_int m * (pow2 e :: rat) \<noteq> 0"
    using assms(1) by (metis less_irrefl)
  ultimately
  show ?thesis
    unfolding of_sig_def Let_def fst_conv snd_conv by (simp only: if_False)
qed

lemma rnd_normal:
  assumes "pow2 (- 1022) \<le> a" "a \<le> 2 ^ 1023"
  shows "\<exists>r. rnd neg a = Fin (if neg then - r else r) \<and> \<bar>r - a\<bar> \<le> a / 2 ^ 53"
proof -
  let ?r = "of_int (fst (round_sig a)) * (pow2 (snd (round_sig a)) :: rat)"
  have a: "0 < a"
    using assms(1) pow2_pos [of "- 1022", where ?'a = rat] by linarith
  have err: "\<bar>?r - a\<bar> \<le> a / 2 ^ 53"
    by (rule round_sig_normal [OF assms(1)])
  have "a / 2 ^ 53 < a" using a by simp
  with err have "0 < ?r" "?r < 2 * a" by linarith+
  with assms(2) have "0 < ?r" "?r < 2 ^ 1024" by simp_all
  then have "of_sig neg (fst (round_sig a), snd (round_sig a))
      = Fin (if neg then - ?r else ?r)"
    by (rule of_sig_finite)
  with err show ?thesis
    by (auto simp: rnd_def)
qed

lemma of_rat_pow2: "(of_rat (pow2 e) :: real) = pow2 e"
  by (simp add: pow2_def of_rat_power of_rat_divide)

lemma rnd_real_normal:
  assumes "pow2 (- 1022) \<le> a" "a \<le> 2 ^ 1023"
  shows "\<exists>r. rnd_real neg a = Fin (if neg then - r else r) \<and> \<bar>real_of_rat r - a\<bar> \<le> a / 2 ^ 53"
proof -
  let ?m = "fst (round_sig a)" and ?e = "snd (round_sig a)"
  let ?r = "of_int ?m * (pow2 ?e :: rat)"
  have rr: "real_of_rat ?r = of_int ?m * pow2 ?e"
    by (simp add: of_rat_mult of_rat_pow2)
  have a: "0 < a"
    using assms(1) pow2_pos [of "- 1022", where ?'a = real] by linarith
  have err: "\<bar>real_of_rat ?r - a\<bar> \<le> a / 2 ^ 53"
    unfolding rr by (rule round_sig_normal [OF assms(1)])
  have "a / 2 ^ 53 < a" using a by simp
  with err have "0 < real_of_rat ?r" "real_of_rat ?r < 2 * a" by linarith+
  with assms(2) have "real_of_rat 0 < real_of_rat ?r" "real_of_rat ?r < real_of_rat (2 ^ 1024)"
    by (simp_all add: of_rat_power)
  then have "0 < ?r" "?r < 2 ^ 1024"
    by (simp_all only: of_rat_less)
  then have "of_sig neg (?m, ?e) = Fin (if neg then - ?r else ?r)"
    by (rule of_sig_finite)
  with err show ?thesis
    by (auto simp: rnd_real_def)
qed

lemma rnd_range:
  assumes "1 / 4 \<le> a" "a \<le> 1024"
  shows "\<exists>r. rnd False a = Fin r \<and> \<bar>r - a\<bar> \<le> 1 / 2 ^ 43"
proof -
  have "pow2 (- 1022) \<le> (pow2 (- 2) :: rat)" by (rule pow2_mono) simp
  also have "(pow2 (- 2) :: rat) = 1 / 4" by (simp add: pow2_def)
  finally have lo: "pow2 (- 1022) \<le> a" using assms(1) by simp
  have "(2::rat) ^ 10 \<le> 2 ^ 1023" by (rule power_increasing) simp_all
  then have hi: "a \<le> 2 ^ 1023" using assms(2) by simp
  from rnd_normal [OF lo hi, of False] obtain r
    where r: "rnd False a = Fin r" "\<bar>r - a\<bar> \<le> a / 2 ^ 53" by auto
  have "a / 2 ^ 53 \<le> 1024 / 2 ^ 53" using assms(2) by (simp add: divide_right_mono)
  also have "\<dots> = (1 / 2 ^ 43 :: rat)" by simp
  finally show ?thesis using r by auto
qed

lemma fsub_range:
  assumes "1 / 4 \<le> x - y" "x - y \<le> 1024"
  shows "\<exists>f. fsub (Fin x) (Fin y) = Fin f \<and> \<bar>f - (x - y)\<bar> \<le> 1 / 2 ^ 43"
proof -
  have "fsub (Fin x) (Fin y) = rnd False (x - y)"
    using assms(1) by (simp add: fsub_def fadd_def)
  then show ?thesis using rnd_range [OF assms] by simp
qed

lemma fmul_range:
  assumes "0 < x" "0 < y" "1 / 4 \<le> x * y" "x * y \<le> 1024"
  shows "\<exists>f. fmul (Fin x) (Fin y) = Fin f \<and> \<bar>f - x * y\<bar> \<le> 1 / 2 ^ 43"
proof -
  have "fmul (Fin x) (Fin y) = rnd False (x * y)"
    using assms(1,2) by (simp add: fmul_def)
  then show ?thesis using rnd_range [OF assms(3,4)] by simp
qed

lemma of_rat_abs_le:
  "\<bar>r - a\<bar> \<le> (c::rat) \<Longrightarrow> \<bar>real_of_rat r - real_of_rat a\<bar> \<le> real_of_rat c"
  by (metis of_rat_diff of_rat_less_eq abs_le_iff of_rat_minus)

section \<open>Perturbation of a real power\<close>

lemma exp_minus_one_bound:
  fixes x :: real
  assumes "\<bar>x\<bar> \<le> 1"
  shows "\<bar>exp x - 1\<bar> \<le> 2 * \<bar>x\<bar>"
proof (cases "0 \<le> x")
  case True
  with assms have x: "x \<le> 1" by simp
  have "exp x \<le> 1 + x + x\<^sup>2" by (rule exp_bound [OF True x])
  moreover have "x\<^sup>2 \<le> x" using True x by (simp add: power2_eq_square mult_left_le)
  moreover have "1 \<le> exp x" using True by simp
  ultimately show ?thesis using True by linarith
next
  case False
  then have "exp x \<le> 1" by simp
  moreover have "1 + x \<le> exp x" by simp
  ultimately show ?thesis using False by linarith
qed

lemma abs_ln_bound:
  fixes u :: real
  assumes "0 < u" "u - 1 \<le> d" "1 / u - 1 \<le> d"
  shows "\<bar>ln u\<bar> \<le> d"
proof -
  have "ln u \<le> u - 1" by (rule ln_le_minus_one [OF assms(1)])
  moreover have "ln (1 / u) \<le> 1 / u - 1" using assms(1) by (intro ln_le_minus_one) simp
  moreover have "ln (1 / u) = - ln u" using assms(1) by (simp add: ln_div)
  ultimately show ?thesis using assms(2,3) by linarith
qed

lemma powr_close:
  fixes a a0 y y0 :: real
  assumes "1 \<le> a0" "0 < a"
    and "a0 - 1 \<le> L"
    and "\<bar>y0 - y\<bar> \<le> dy"
    and "a0 / a - 1 \<le> da" "a / a0 - 1 \<le> da"
    and "\<bar>y\<bar> \<le> Y"
    and "dy * L + Y * da \<le> E" "E \<le> 1"
  shows "\<bar>a0 powr y0 - a powr y\<bar> \<le> 2 * E * a powr y"
proof -
  define D where "D = y0 * ln a0 - y * ln a"
  have a0: "0 < a0" using assms(1) by simp
  have l0: "0 \<le> ln a0" using assms(1) by simp
  have l1: "ln a0 \<le> L" using ln_le_minus_one [OF a0] assms(3) by simp
  have "\<bar>ln (a0 / a)\<bar> \<le> da"
    using assms(2,5,6) a0 by (intro abs_ln_bound) simp_all
  then have l2: "\<bar>ln a0 - ln a\<bar> \<le> da"
    using a0 assms(2) by (simp add: ln_div)
  have dy: "0 \<le> dy" using assms(4) by simp
  have Y: "0 \<le> Y" using assms(7) by simp
  have da: "0 \<le> da" using l2 by simp
  have "D = (y0 - y) * ln a0 + y * (ln a0 - ln a)"
    by (simp add: D_def algebra_simps)
  then have "\<bar>D\<bar> \<le> \<bar>y0 - y\<bar> * \<bar>ln a0\<bar> + \<bar>y\<bar> * \<bar>ln a0 - ln a\<bar>"
    by (metis abs_mult abs_triangle_ineq)
  also have "\<dots> \<le> dy * L + Y * da"
    using assms(4,7) l0 l1 l2 dy Y da by (intro add_mono mult_mono) simp_all
  finally have D: "\<bar>D\<bar> \<le> E" using assms(8) by simp
  have "a0 powr y0 = exp (y * ln a + D)"
    using a0 by (simp add: powr_def D_def)
  also have "\<dots> = a powr y * exp D"
    using assms(2) by (simp add: powr_def exp_add)
  finally have "a0 powr y0 - a powr y = a powr y * (exp D - 1)"
    by (simp add: algebra_simps)
  then have "\<bar>a0 powr y0 - a powr y\<bar> = a powr y * \<bar>exp D - 1\<bar>"
    by (simp add: abs_mult)
  also have "\<dots> \<le> a powr y * (2 * \<bar>D\<bar>)"
    using D assms(9) by (intro mult_left_mono exp_minus_one_bound) simp_all
  also have "\<dots> \<le> a powr y * (2 * E)"
    using D by (intro mult_left_mono) simp_all
  finally show ?thesis by (simp add: mult.commute)
qed

section \<open>Basic facts about the operators\<close>

lemma rnd_zero: "rnd neg 0 = signed_zero neg"
  by (simp add: rnd_def round_sig_def of_sig_def round_half_even_def Let_def)

lemma rnd_not_NaN: "rnd neg a \<noteq> NaN"
  by (simp add: rnd_def of_sig_def Let_def signed_inf_def signed_zero_def)

lemma rnd_False_cases: "rnd False a = PInf \<or> (\<exists>r. rnd False a = Fin r)"
  by (simp add: rnd_def of_sig_def Let_def signed_inf_def signed_zero_def)

lemma fsub_NaN_left: "fsub NaN y = NaN"
  by (simp add: fsub_def fadd_def)

lemma fmul_NaN_left: "fmul NaN y = NaN"
  by (simp add: fmul_def)

lemma fsub_one_one: "fsub (Fin 1) (Fin 1) = Fin 0"
  by (simp add: fsub_def fadd_def signed_zero_def)

lemma fmul_zero_hundred: "fmul (Fin 0) (Fin 100) = Fin 0"
  by (simp add: fmul_def rnd_zero signed_zero_def)

lemma fdiv_by_zero: "is_zero p \<Longrightarrow> fdiv r p \<in> {PInf, NInf, NaN}"
  by (cases p) (auto simp: fdiv_def signed_inf_def)

lemma js_pow_one_zero_exp: "is_zero y \<Longrightarrow> js_pow pw b y = Fin 1"
  by (auto simp: js_pow_def)

lemma js_pow_one_finite:
  assumes "y = Fin r" "r \<noteq> 0"
  shows "js_pow pw (Fin 1) y = pw (Fin 1) y"
  using assms by (simp add: js_pow_def)

lemma js_pow_negative_fractional:
  assumes "q < 0" "is_finite y" "\<not> is_integral y"
  shows "js_pow pw (Fin q) y = NaN"
proof -
  have "\<not> is_zero y"
    using assms(2,3) by (cases y) (auto simp: is_integral_def)
  moreover have "y \<noteq> NaN" "y \<noteq> PInf" "y \<noteq> NInf"
    using assms(2) by auto
  ultimately show ?thesis
    using assms(1,3) by (simp add: js_pow_def)
qed

section \<open>The calculator never fails\<close>

text \<open>
  C10. \<^verbatim>\<open>calcArb\<close>, \<^verbatim>\<open>calcAnnualizedArb\<close> and \<^verbatim>\<open>calcNetDeltaNeutral\<close> are total
  over all numbers: whatever the arguments (a zero price, a zero redemption period, a
  negative ratio, infinities, \<open>NaN\<close>), each returns a number and none throws.
\<close>

theorem calc_functions_total:
  "(\<exists>v. calcArb redeemRate price = Inr v) \<and>
   (\<exists>v. calcAnnualizedArb pw arb days = Inr v) \<and>
   (\<exists>v. calcNetDeltaNeutral annualizedArb collateralRatio netBorrowRate = Inr v)"
  by (simp add: calcArb_def calcAnnualizedArb_def calcNetDeltaNeutral_def)

text \<open>
  C3, as stated: \<^verbatim>\<open>calcArb\<close> fails with \<open>InvalidArbRatio\<close> when the price is not
  positive. It does not: \<^verbatim>\<open>calcArb(1, 0)\<close> returns \<^verbatim>\<open>Infinity\<close> and
  \<^verbatim>\<open>calcArb(1, -2)\<close> returns \<^verbatim>\<open>-0.5\<close>.
\<close>

theorem calcArb_invalid_price_counterexample:
  "js_le (js_lit 0) (Fin 0) \<and> calcArb (js_lit 1) (js_lit 0) = Inr PInf \<and>
   calcArb (js_lit 1) (js_lit 0) \<noteq> Inl InvalidArbRatio \<and>
   js_le (js_lit (- 2)) (Fin 0) \<and> calcArb (js_lit 1) (js_lit (- 2)) = Inr (Fin (- 1 / 2))"
  by (simp add: calcArb_def js_le_def rnd_eval op_eval)

text \<open>
  C3, amended: for every redemption rate and every price \<open>\<le> 0\<close>, \<^verbatim>\<open>calcArb\<close> does not
  fail; it returns the quotient of the two as the division of binary64 numbers gives
  it, which is \<^verbatim>\<open>Infinity\<close>, \<^verbatim>\<open>-Infinity\<close> or \<^verbatim>\<open>NaN\<close> when the price is zero.
\<close>

theorem calcArb_nonpositive_price:
  assumes "js_le price (Fin 0)"
  shows "calcArb redeemRate price = Inr (fdiv redeemRate price) \<and>
         (is_zero price \<longrightarrow> fdiv redeemRate price \<in> {PInf, NInf, NaN})"
  using fdiv_by_zero [of price redeemRate] by (simp add: calcArb_def)

theorem calcArb_nonpositive_price_witness:
  "js_le NZero (Fin 0) \<and> is_zero NZero \<and> calcArb (Fin 3) NZero = Inr NInf"
proof -
  have h: "js_le NZero (Fin 0)"
    by (simp add: js_le_def)
  have "fdiv (Fin 3) NZero = NInf"
    by (simp add: fdiv_def signed_inf_def)
  then show ?thesis
    using h calcArb_nonpositive_price [OF h, of "Fin 3"] by simp
qed

text \<open>
  C4, as stated: \<^verbatim>\<open>calcAnnualizedArb\<close> fails with \<open>InvalidArbRatio\<close> when the
  redemption period is not positive, and when the ratio is negative and the exponent
  fractional. It does not: \<^verbatim>\<open>calcAnnualizedArb(2, 0)\<close> returns \<^verbatim>\<open>Infinity\<close> and
  \<^verbatim>\<open>calcAnnualizedArb(-1, 2)\<close>, with the exponent \<^verbatim>\<open>182.5\<close>, returns \<^verbatim>\<open>NaN\<close>.
\<close>

theorem calcAnnualizedArb_guard_counterexample:
  "js_le (js_lit 0) (Fin 0) \<and> calcAnnualizedArb ideal_pow (js_lit 2) (js_lit 0) = Inr PInf \<and>
   fdiv (Fin 365) (js_lit 2) = Fin (365 / 2) \<and>
   calcAnnualizedArb ideal_pow (js_lit (- 1)) (js_lit 2) = Inr NaN"
  by (simp add: calcAnnualizedArb_def js_le_def rnd_eval op_eval)

text \<open>
  C4, amended: \<^verbatim>\<open>calcAnnualizedArb\<close> has no guard and never fails. Whatever the
  redemption period, it returns a number; when the ratio is negative and finite and
  the exponent \<^verbatim>\<open>365 / DAYS_TO_REDEEM\<close> is finite and not an integer, that number is
  \<open>NaN\<close>.
\<close>

theorem calcAnnualizedArb_unguarded:
  "(\<exists>v. calcAnnualizedArb pw arb days = Inr v) \<and>
   (is_finite arb \<and> val arb < 0 \<and> is_finite (fdiv (Fin 365) days) \<and>
    \<not> is_integral (fdiv (Fin 365) days) \<longrightarrow>
    calcAnnualizedArb pw arb days = Inr NaN)"
proof (intro conjI impI)
  show "\<exists>v. calcAnnualizedArb pw arb days = Inr v"
    by (simp add: calcAnnualizedArb_def)
next
  assume a: "is_finite arb \<and> val arb < 0 \<and> is_finite (fdiv (Fin 365) days) \<and>
    \<not> is_integral (fdiv (Fin 365) days)"
  then obtain q where q: "arb = Fin q" "q < 0"
    by (cases arb) auto
  have "js_pow pw (Fin q) (fdiv (Fin 365) days) = NaN"
    using a q by (intro js_pow_negative_fractional) auto
  then show "calcAnnualizedArb pw arb days = Inr NaN"
    using q by (simp add: calcAnnualizedArb_def fsub_NaN_left fmul_NaN_left)
qed

theorem calcAnnualizedArb_unguarded_witness:
  "is_finite (Fin (- 3)) \<and> val (Fin (- 3)) < 0 \<and> fdiv (Fin 365) (Fin 2) = Fin (365 / 2) \<and>
   \<not> is_integral (Fin (365 / 2)) \<and> calcAnnualizedArb ideal_pow (Fin (- 3)) (Fin 2) = Inr NaN"
proof -
  have d: "fdiv (Fin 365) (Fin 2) = Fin (365 / 2)"
    by (simp add: rnd_eval op_eval)
  have i: "\<not> is_integral (Fin (365 / 2))"
    by (simp add: is_integral_def floor_rat_numeral)
  show ?thesis
    using calcAnnualizedArb_unguarded [of ideal_pow "Fin (- 3)" "Fin 2"] d i by simp
qed

section \<open>The quote fetcher has no error kinds of its own\<close>

lemma asset_is_error: "asset_is symbol x = Inl e \<Longrightarrow> e = TypeError"
  by (cases x) (auto simp: asset_is_def get_prop_def bind_result_def)

lemma js_filter_no_match:
  assumes "\<forall>x\<in>set xs. asset_is symbol x \<noteq> Inr True"
  shows "js_filter (asset_is symbol) xs = Inr [] \<or> js_filter (asset_is symbol) xs = Inl TypeError"
  using assms
proof (induction xs)
  case Nil
  show ?case by simp
next
  case (Cons x xs)
  show ?case
  proof (cases "asset_is symbol x")
    case (Inl e)
    then show ?thesis
      using asset_is_error [of symbol x e] by simp
  next
    case (Inr b)
    with Cons.prems have "\<not> b" by auto
    with Inr Cons show ?thesis by auto
  qed
qed

lemma no_match_TypeError:
  assumes "\<forall>x\<in>set xs. asset_is symbol x \<noteq> Inr True"
  shows "bind_result (call_filter (Arr xs) (asset_is symbol)) (\<lambda>matches.
         bind_result (get_prop (destructure_first matches) field) (\<lambda>rate.
         parseFloat rate)) = Inl TypeError"
  using js_filter_no_match [OF assms]
  by (auto simp: call_filter_def bind_result_def destructure_first_def get_prop_def)

text \<open>
  C5, as stated: a response without a record of the target asset makes the quote fetch
  fail with \<open>QuoteUnavailable\<close>, and no number is ever returned. The borrow-rate
  fetch on an empty array rejects with the engine's \<open>TypeError\<close> instead, and the
  redemption-rate fetch matches no symbol at all: it returns the rate of whatever
  record comes first.
\<close>

theorem quote_fetch_no_match_counterexample:
  "queryAtomUmeeHedge (Inr (Arr [])) = Inl TypeError \<and>
   queryAtomUmeeHedge (Inr (Arr [])) \<noteq> Inl QuoteUnavailable \<and>
   queryStAtomRedemptionRate
     (Inr (Obj [(''host_zone'',
        Arr [Obj [(''chain_id'', Str ''juno-1''), (''redemption_rate'', Str ''1.25'')]])]))
     = Inr (Fin (5 / 4))"
  apply (simp add: query_eval parse_eval)
  apply (simp add: rnd_eval)
  done

text \<open>
  C5, amended: for every response whose array holds no record with the target asset
  symbol, the borrow-rate fetch and the supply-rate fetch reject with the engine's
  \<open>TypeError\<close> and return nothing; the redemption-rate fetch compares no symbol: it
  rejects with a \<open>TypeError\<close> when its \<^verbatim>\<open>host_zone\<close> array is empty and reads
  the rate of the first record otherwise.
\<close>

theorem quote_fetch_no_match:
  "((\<forall>x\<in>set xs. asset_is ''ATOM'' x \<noteq> Inr True) \<longrightarrow>
      queryAtomUmeeHedge (Inr (Arr xs)) = Inl TypeError) \<and>
   ((\<forall>x\<in>set xs. asset_is ''USDC'' x \<noteq> Inr True) \<longrightarrow>
      queryUsdcSupplyRate (Inr (Arr xs)) = Inl TypeError) \<and>
   (map_of kvs ''host_zone'' = Some (Arr []) \<longrightarrow>
      queryStAtomRedemptionRate (Inr (Obj kvs)) = Inl TypeError) \<and>
   (map_of kvs ''host_zone'' = Some (Arr (zone # zones)) \<longrightarrow>
      queryStAtomRedemptionRate (Inr (Obj kvs))
        = bind_result (get_prop zone ''redemption_rate'') (\<lambda>rate. parseFloat rate))"
proof (intro conjI impI)
  assume "\<forall>x\<in>set xs. asset_is ''ATOM'' x \<noteq> Inr True"
  then show "queryAtomUmeeHedge (Inr (Arr xs)) = Inl TypeError"
    using no_match_TypeError [of xs "''ATOM''" "''borrow_apy''"]
    by (simp add: queryAtomUmeeHedge_def bind_result_def)
next
  assume "\<forall>x\<in>set xs. asset_is ''USDC'' x \<noteq> Inr True"
  then show "queryUsdcSupplyRate (Inr (Arr xs)) = Inl TypeError"
    using no_match_TypeError [of xs "''USDC''" "''supply_apy''"]
    by (simp add: queryUsdcSupplyRate_def bind_result_def)
next
  assume "map_of kvs ''host_zone'' = Some (Arr [])"
  then show "queryStAtomRedemptionRate (Inr (Obj kvs)) = Inl TypeError"
    by (simp add: queryStAtomRedemptionRate_def bind_result_def get_prop_def get_index0_def)
next
  assume "map_of kvs ''host_zone'' = Some (Arr (zone # zones))"
  then show "queryStAtomRedemptionRate (Inr (Obj kvs))
        = bind_result (get_prop zone ''redemption_rate'') (\<lambda>rate. parseFloat rate)"
    by (simp add: queryStAtomRedemptionRate_def bind_result_def get_prop_def get_index0_def)
qed

theorem quote_fetch_no_match_witness:
  "asset_is ''ATOM'' (Obj [(''asset'', Str ''OSMO''), (''borrow_apy'', Str ''0.1'')]) = Inr False \<and>
   asset_is ''USDC'' (Obj [(''asset'', Str ''OSMO''), (''borrow_apy'', Str ''0.1'')]) = Inr False \<and>
   asset_is ''ATOM'' (Number (Fin 7)) = Inr False \<and>
   asset_is ''USDC'' (Number (Fin 7)) = Inr False \<and>
   queryAtomUmeeHedge
     (Inr (Arr [Obj [(''asset'', Str ''OSMO''), (''borrow_apy'', Str ''0.1'')], Number (Fin 7)]))
     = Inl TypeError \<and>
   queryUsdcSupplyRate
     (Inr (Arr [Obj [(''asset'', Str ''OSMO''), (''borrow_apy'', Str ''0.1'')], Number (Fin 7)]))
     = Inl TypeError \<and>
   map_of [(''host_zone'', Arr [])] ''host_zone'' = Some (Arr []) \<and>
   queryStAtomRedemptionRate (Inr (Obj [(''host_zone'', Arr [])])) = Inl TypeError \<and>
   map_of [(''host_zone'', Arr [Obj [(''redemption_rate'', Str ''x'')], Null])] ''host_zone''
     = Some (Arr [Obj [(''redemption_rate'', Str ''x'')], Null]) \<and>
   queryStAtomRedemptionRate
     (Inr (Obj [(''host_zone'', Arr [Obj [(''redemption_rate'', Str ''x'')], Null])])) = Inr NaN"
  using quote_fetch_no_match
    [of "[Obj [(''asset'', Str ''OSMO''), (''borrow_apy'', Str ''0.1'')], Number (Fin 7)]"
        "[(''host_zone'', Arr [])]"]
    quote_fetch_no_match
    [of "[]" "[(''host_zone'', Arr [Obj [(''redemption_rate'', Str ''x'')], Null])]"
        "Obj [(''redemption_rate'', Str ''x'')]" "[Null]"]
  by (simp add: asset_is_def get_prop_def bind_result_def parseFloat_def parse_eval)

lemma parse_float_string_no_literal:
  assumes "dropWhile is_ws s = c # u" "c \<notin> set ''+-.0123456789I''"
  shows "parse_float_string s = NaN"
proof -
  have d: "\<not> is_digit c" using assms(2) by (simp add: is_digit_def)
  have i: "take 8 (c # u) \<noteq> ''Infinity''" using assms(2) by auto
  have "parse_unsigned False (c # u) = NaN"
    using d i assms(2) by (simp add: parse_unsigned_def)
  then show ?thesis
    using assms by (simp add: parse_float_string_def)
qed

lemma parseFloat_error: "parseFloat v = Inl e \<Longrightarrow> e = TypeError"
  by (simp add: parseFloat_def split: if_splits)

lemma asset_is_object:
  assumes "x \<noteq> Null" "x \<noteq> Undefined"
  shows "\<exists>b. asset_is symbol x = Inr b"
  using assms by (cases x) (auto simp: asset_is_def get_prop_def bind_result_def)

lemma js_filter_no_null:
  assumes "Null \<notin> set xs" "Undefined \<notin> set xs"
  shows "js_filter (asset_is symbol) xs = Inr (filter (\<lambda>x. asset_is symbol x = Inr True) xs)"
  using assms
proof (induction xs)
  case Nil
  show ?case by simp
next
  case (Cons x xs)
  then have "x \<noteq> Null" "x \<noteq> Undefined" by auto
  from asset_is_object [OF this] obtain b where b: "asset_is symbol x = Inr b" by blast
  with Cons show ?case by simp
qed

lemma js_filter_null:
  assumes "Null \<in> set xs"
  shows "js_filter (asset_is symbol) xs = Inl TypeError"
  using assms
proof (induction xs)
  case Nil
  then show ?case by simp
next
  case (Cons x xs)
  show ?case
  proof (cases "asset_is symbol x")
    case (Inl e)
    then show ?thesis using asset_is_error [of symbol x e] by simp
  next
    case (Inr b)
    then have "x \<noteq> Null" by (auto simp: asset_is_def get_prop_def bind_result_def)
    with Cons have "js_filter (asset_is symbol) xs = Inl TypeError" by simp
    with Inr show ?thesis by simp
  qed
qed

lemma find_filter: "find P xs = Some r \<Longrightarrow> \<exists>rest. filter P xs = r # rest"
  by (induction xs) (auto split: if_splits)

lemma first_match_rate:
  assumes "Null \<notin> set xs" "Undefined \<notin> set xs"
    and "find (\<lambda>x. asset_is symbol x = Inr True) xs = Some r"
    and "get_prop r field = Inr v"
  shows "bind_result (call_filter (Arr xs) (asset_is symbol)) (\<lambda>matches.
         bind_result (get_prop (destructure_first matches) field) (\<lambda>rate.
         parseFloat rate)) = parseFloat v"
proof -
  from find_filter [OF assms(3)] obtain rest
    where "filter (\<lambda>x. asset_is symbol x = Inr True) xs = r # rest" by blast
  then have "js_filter (asset_is symbol) xs = Inr (r # rest)"
    using js_filter_no_null [OF assms(1,2), of symbol] by simp
  then show ?thesis
    using assms(4) by (simp add: call_filter_def bind_result_def destructure_first_def)
qed

text \<open>
  C6, as stated: a matching record whose rate field is no number makes the quote fetch
  fail with \<open>MalformedQuote\<close>. It does not: \<^verbatim>\<open>parseFloat("abc")\<close> is \<open>NaN\<close>, and
  that is what the fetch resolves to.
\<close>

theorem quote_fetch_malformed_counterexample:
  "queryAtomUmeeHedge
     (Inr (Arr [Obj [(''asset'', Str ''ATOM''), (''borrow_apy'', Str ''abc'')]])) = Inr NaN \<and>
   queryUsdcSupplyRate
     (Inr (Arr [Obj [(''asset'', Str ''USDC''), (''supply_apy'', Str ''abc'')]])) = Inr NaN"
  by (simp add: query_eval parse_eval)

text \<open>
  C6, amended: for every response whose array has no \<^verbatim>\<open>null\<close> element and holds a
  record matching the target asset symbol, the borrow-rate fetch and the supply-rate
  fetch settle exactly as \<^verbatim>\<open>parseFloat\<close> of the rate field of the first matching
  record does, and never with \<open>MalformedQuote\<close>. A rate string without a numeric
  prefix (its first non-blank character is no sign, digit, dot or \<^verbatim>\<open>I\<close>) resolves to
  \<open>NaN\<close>; a rate that only starts with a number resolves to that number
  (\<^verbatim>\<open>"12abc"\<close> to \<open>12\<close>); a rate that is an object with a \<^verbatim>\<open>toString\<close> property of
  its own rejects with the engine's \<open>TypeError\<close>. A \<^verbatim>\<open>null\<close> element anywhere in
  the array makes both fetches reject with a \<open>TypeError\<close>.
\<close>

theorem quote_fetch_unparseable_rate:
  "(Null \<notin> set xs \<and> Undefined \<notin> set xs \<and>
    find (\<lambda>x. asset_is ''ATOM'' x = Inr True) xs = Some r \<and>
    get_prop r ''borrow_apy'' = Inr v \<longrightarrow>
      queryAtomUmeeHedge (Inr (Arr xs)) = parseFloat v \<and> parseFloat v \<noteq> Inl MalformedQuote) \<and>
   (Null \<notin> set xs \<and> Undefined \<notin> set xs \<and>
    find (\<lambda>x. asset_is ''USDC'' x = Inr True) xs = Some r \<and>
    get_prop r ''supply_apy'' = Inr v \<longrightarrow>
      queryUsdcSupplyRate (Inr (Arr xs)) = parseFloat v \<and> parseFloat v \<noteq> Inl MalformedQuote) \<and>
   (dropWhile is_ws s = c # u \<and> c \<notin> set ''+-.0123456789I'' \<longrightarrow>
      parseFloat (Str s) = Inr NaN) \<and>
   parseFloat (Str ''12abc'') = Inr (Fin 12) \<and>
   (map_of kvs ''toString'' = Some w \<longrightarrow> parseFloat (Obj kvs) = Inl TypeError) \<and>
   (Null \<in> set xs \<longrightarrow>
      queryAtomUmeeHedge (Inr (Arr xs)) = Inl TypeError \<and>
      queryUsdcSupplyRate (Inr (Arr xs)) = Inl TypeError)"
proof (intro conjI impI)
  assume "Null \<notin> set xs \<and> Undefined \<notin> set xs \<and>
    find (\<lambda>x. asset_is ''ATOM'' x = Inr True) xs = Some r \<and>
    get_prop r ''borrow_apy'' = Inr v"
  then show "queryAtomUmeeHedge (Inr (Arr xs)) = parseFloat v"
    using first_match_rate [of xs "''ATOM''" r "''borrow_apy''" v]
    by (simp add: queryAtomUmeeHedge_def bind_result_def)
next
  assume "Null \<notin> set xs \<and> Undefined \<notin> set xs \<and>
    find (\<lambda>x. asset_is ''USDC'' x = Inr True) xs = Some r \<and>
    get_prop r ''supply_apy'' = Inr v"
  then show "queryUsdcSupplyRate (Inr (Arr xs)) = parseFloat v"
    using first_match_rate [of xs "''USDC''" r "''supply_apy''" v]
    by (simp add: queryUsdcSupplyRate_def bind_result_def)
next
  show "parseFloat v \<noteq> Inl MalformedQuote" "parseFloat v \<noteq> Inl MalformedQuote"
    using parseFloat_error [of v MalformedQuote] by auto
next
  assume "dropWhile is_ws s = c # u \<and> c \<notin> set ''+-.0123456789I''"
  then show "parseFloat (Str s) = Inr NaN"
    using parse_float_string_no_literal [of s c u] by (simp add: parseFloat_def)
next
  show "parseFloat (Str ''12abc'') = Inr (Fin 12)"
    apply (simp add: parseFloat_def parse_eval)
    apply (simp add: rnd_eval)
    done
next
  assume "map_of kvs ''toString'' = Some w"
  then show "parseFloat (Obj kvs) = Inl TypeError"
    by (simp add: parseFloat_def)
next
  assume n: "Null \<in> set xs"
  show "queryAtomUmeeHedge (Inr (Arr xs)) = Inl TypeError"
    using js_filter_null [OF n, of "''ATOM''"]
    by (simp add: queryAtomUmeeHedge_def bind_result_def call_filter_def)
  show "queryUsdcSupplyRate (Inr (Arr xs)) = Inl TypeError"
    using js_filter_null [OF n, of "''USDC''"]
    by (simp add: queryUsdcSupplyRate_def bind_result_def call_filter_def)
qed

theorem quote_fetch_unparseable_rate_witness:
  "Null \<notin> set [Str ''x'', Obj [(''asset'', Str ''ATOM''), (''borrow_apy'', Str '' n/a'')]] \<and>
   Undefined \<notin> set [Str ''x'', Obj [(''asset'', Str ''ATOM''), (''borrow_apy'', Str '' n/a'')]] \<and>
   find (\<lambda>x. asset_is ''ATOM'' x = Inr True)
     [Str ''x'', Obj [(''asset'', Str ''ATOM''), (''borrow_apy'', Str '' n/a'')]]
     = Some (Obj [(''asset'', Str ''ATOM''), (''borrow_apy'', Str '' n/a'')]) \<and>
   get_prop (Obj [(''asset'', Str ''ATOM''), (''borrow_apy'', Str '' n/a'')]) ''borrow_apy''
     = Inr (Str '' n/a'') \<and>
   dropWhile is_ws '' n/a'' = CHR ''n'' # ''/a'' \<and>
   CHR ''n'' \<notin> set ''+-.0123456789I'' \<and>
   parseFloat (Str '' n/a'') = Inr NaN \<and>
   queryAtomUmeeHedge
     (Inr (Arr [Str ''x'', Obj [(''asset'', Str ''ATOM''), (''borrow_apy'', Str '' n/a'')]]))
     = Inr NaN \<and>
   find (\<lambda>x. asset_is ''USDC'' x = Inr True)
     [Obj [(''asset'', Str ''USDC''), (''supply_apy'', Obj [(''toString'', Number (Fin 1))])]]
     = Some (Obj [(''asset'', Str ''USDC''), (''supply_apy'', Obj [(''toString'', Number (Fin 1))])]) \<and>
   map_of [(''toString'', Number (Fin 1))] ''toString'' = Some (Number (Fin 1)) \<and>
   queryUsdcSupplyRate
     (Inr (Arr [Obj [(''asset'', Str ''USDC''),
                     (''supply_apy'', Obj [(''toString'', Number (Fin 1))])]]))
     = Inl TypeError \<and>
   Null \<in> set [Obj [(''asset'', Str ''ATOM''), (''borrow_apy'', Str ''n/a'')], Null] \<and>
   queryAtomUmeeHedge
     (Inr (Arr [Obj [(''asset'', Str ''ATOM''), (''borrow_apy'', Str ''n/a'')], Null]))
     = Inl TypeError"
proof -
  have w: "dropWhile is_ws '' n/a'' = CHR ''n'' # ''/a''"
    by (simp add: is_ws_def)
  show ?thesis
    using w
      quote_fetch_unparseable_rate
        [of "[Str ''x'', Obj [(''asset'', Str ''ATOM''), (''borrow_apy'', Str '' n/a'')]]"
            "Obj [(''asset'', Str ''ATOM''), (''borrow_apy'', Str '' n/a'')]" "Str '' n/a''"
            "'' n/a''" "CHR ''n''" "''/a''" "[(''toString'', Number (Fin 1))]" "Number (Fin 1)"]
      quote_fetch_unparseable_rate
        [of "[Obj [(''asset'', Str ''USDC''), (''supply_apy'', Obj [(''toString'', Number (Fin 1))])]]"
            "Obj [(''asset'', Str ''USDC''), (''supply_apy'', Obj [(''toString'', Number (Fin 1))])]"
            "Obj [(''toString'', Number (Fin 1))]"]
      quote_fetch_unparseable_rate
        [of "[Obj [(''asset'', Str ''ATOM''), (''borrow_apy'', Str ''n/a'')], Null]"]
    by (simp add: asset_is_def get_prop_def bind_result_def)
qed

section \<open>Net borrow rate\<close>

text \<open>
  C9. Whenever the supply-rate fetch yields \<open>supplyRate\<close>, \<^verbatim>\<open>calcNetBorrowRate\<close>
  returns \<^verbatim>\<open>borrowRate * collateralRatio - supplyRate\<close>; with the supply rate
  \<^verbatim>\<open>0.03\<close>, \<^verbatim>\<open>calcNetBorrowRate(0.10, 2.0)\<close> returns \<^verbatim>\<open>0.17\<close>.
\<close>

theorem calcNetBorrowRate_formula:
  "(queryUsdcSupplyRate res = Inr supplyRate \<longrightarrow>
      calcNetBorrowRate res borrowRate collateralRatio
        = Inr (fsub (fmul borrowRate collateralRatio) supplyRate)) \<and>
   (queryUsdcSupplyRate res = Inr (js_lit (3 / 100)) \<longrightarrow>
      calcNetBorrowRate res (js_lit (10 / 100)) (js_lit 2) = Inr (js_lit (17 / 100)))"
proof -
  have "fsub (fmul (js_lit (10 / 100)) (js_lit 2)) (js_lit (3 / 100)) = js_lit (17 / 100)"
    by (simp add: rnd_eval op_eval)
  then show ?thesis
    by (simp add: calcNetBorrowRate_def bind_result_def)
qed

theorem calcNetBorrowRate_formula_witness:
  "queryUsdcSupplyRate
     (Inr (Arr [Obj [(''asset'', Str ''USDC''), (''supply_apy'', Str ''0.03'')]]))
     = Inr (js_lit (3 / 100)) \<and>
   calcNetBorrowRate
     (Inr (Arr [Obj [(''asset'', Str ''USDC''), (''supply_apy'', Str ''0.03'')]]))
     (js_lit (10 / 100)) (js_lit 2) = Inr (js_lit (17 / 100))"
proof -
  have q: "queryUsdcSupplyRate
     (Inr (Arr [Obj [(''asset'', Str ''USDC''), (''supply_apy'', Str ''0.03'')]]))
     = Inr (js_lit (3 / 100))"
    apply (simp add: query_eval parse_eval)
    apply (simp add: rnd_eval)
    done
  show ?thesis
    using q calcNetBorrowRate_formula
      [of "Inr (Arr [Obj [(''asset'', Str ''USDC''), (''supply_apy'', Str ''0.03'')]])"
          "js_lit (3 / 100)" "js_lit (10 / 100)" "js_lit 2"]
    by blast
qed

section \<open>Annualising a ratio of one\<close>

text \<open>
  C8, as stated: for the ratio \<open>1.0\<close> and every redemption period \<open>> 0\<close>,
  \<^verbatim>\<open>calcAnnualizedArb\<close> returns exactly \<open>0.0\<close>. It does not for the smallest
  positive number \<open>2^-1074\<close> (\<^verbatim>\<open>Number.MIN_VALUE\<close>): \<^verbatim>\<open>365 / 2^-1074\<close> overflows to
  \<^verbatim>\<open>Infinity\<close>, \<^verbatim>\<open>1 ** Infinity\<close> is \<open>NaN\<close>, and so is the result.
\<close>

theorem calcAnnualizedArb_one_counterexample:
  "js_lt (Fin 0) (Fin (1 / 2 ^ 1074)) \<and> js_lit (1 / 2 ^ 1074) = Fin (1 / 2 ^ 1074) \<and>
   fdiv (Fin 365) (Fin (1 / 2 ^ 1074)) = PInf \<and>
   calcAnnualizedArb ideal_pow (js_lit 1) (Fin (1 / 2 ^ 1074)) = Inr NaN"
proof -
  have l: "js_lit (1 / 2 ^ 1074) = Fin (1 / 2 ^ 1074)"
    by (simp add: rnd_eval)
  have d: "fdiv (Fin 365) (Fin (1 / 2 ^ 1074)) = PInf"
    by (simp add: rnd_eval fdiv_def)
  have o: "js_lit 1 = Fin 1"
    by (simp add: rnd_eval)
  have "js_pow ideal_pow (Fin 1) PInf = NaN"
    by (simp add: js_pow_def)
  then show ?thesis
    using l d o by (simp add: calcAnnualizedArb_def js_lt_def fsub_NaN_left fmul_NaN_left)
qed

text \<open>
  C8, amended: for the ratio \<open>1.0\<close> and every redemption period \<open>> 0\<close> for which
  \<^verbatim>\<open>365 / DAYS_TO_REDEEM\<close> does not overflow to \<^verbatim>\<open>Infinity\<close>,
  \<^verbatim>\<open>calcAnnualizedArb\<close> returns exactly \<open>0.0\<close>, on an engine whose \<^verbatim>\<open>**\<close> is exact
  at the base \<open>1\<close>.
\<close>

theorem calcAnnualizedArb_one:
  assumes "js_lt (Fin 0) days"
    and "fdiv (Fin 365) days \<noteq> PInf"
    and "pw (Fin 1) (fdiv (Fin 365) days) = Fin 1"
  shows "calcAnnualizedArb pw (Fin 1) days = Inr (Fin 0)"
proof -
  have "js_pow pw (Fin 1) (fdiv (Fin 365) days) = Fin 1"
  proof (cases days)
    case PInf
    then have "fdiv (Fin 365) days = Fin 0"
      by (simp add: fdiv_def signed_zero_def)
    then show ?thesis
      by (simp add: js_pow_one_zero_exp)
  next
    case (Fin q)
    with assms(1) have q: "0 < q"
      by (simp add: js_lt_def)
    with Fin have d: "fdiv (Fin 365) days = rnd False (365 / q)"
      by (simp add: fdiv_def)
    with assms(2) rnd_False_cases [of "365 / q"]
    obtain r where r: "fdiv (Fin 365) days = Fin r"
      by auto
    show ?thesis
    proof (cases "r = 0")
      case True
      with r show ?thesis
        by (simp add: js_pow_one_zero_exp)
    next
      case False
      with r assms(3) show ?thesis
        by (simp add: js_pow_one_finite)
    qed
  qed (use assms(1) in \<open>simp_all add: js_lt_def\<close>)
  then show ?thesis
    by (simp add: calcAnnualizedArb_def fsub_one_one fmul_zero_hundred)
qed

lemma rnd_real_one: "rnd_real False 1 = Fin 1"
  by (simp add: rnd_real_def round_sig_def of_sig_def ilog2_def round_half_even_def Let_def
      pow2_def bitlen_one)

theorem calcAnnualizedArb_one_witness:
  "js_lt (Fin 0) (js_lit 30) \<and> fdiv (Fin 365) (js_lit 30) \<noteq> PInf \<and>
   ideal_pow (Fin 1) (fdiv (Fin 365) (js_lit 30)) = Fin 1 \<and>
   calcAnnualizedArb ideal_pow (Fin 1) (js_lit 30) = Inr (Fin 0)"
proof -
  have l: "js_lit 30 = Fin 30"
    by (simp add: rnd_eval)
  have d: "fdiv (Fin 365) (Fin 30) = Fin (6849224433292629 / 562949953421312)"
    by (simp add: rnd_eval fdiv_def)
  have p: "ideal_pow (Fin 1) (Fin (6849224433292629 / 562949953421312)) = Fin 1"
    by (simp add: ideal_pow_def is_odd_integral_def is_integral_def rnd_real_one)
  have h: "js_lt (Fin 0) (Fin 30)"
    by (simp add: js_lt_def)
  show ?thesis
    using calcAnnualizedArb_one [of "Fin 30" ideal_pow] h l d p by simp
qed

section \<open>Accuracy of the annualised yield\<close>

lemma relative_from_absolute:
  fixes x T e c :: real
  assumes "\<bar>x - T\<bar> \<le> e" "c \<le> T" "0 < c" "e * 10 ^ 9 \<le> c"
  shows "\<bar>x - T\<bar> \<le> \<bar>T\<bar> / 10 ^ 9"
proof -
  have "e \<le> c / 10 ^ 9" using assms(4) by (simp add: field_simps)
  also have "\<dots> \<le> \<bar>T\<bar> / 10 ^ 9" using assms(2,3) by (intro divide_right_mono) simp_all
  finally show ?thesis using assms(1) by linarith
qed

lemma powr_73_6_bounds:
  fixes a :: real
  assumes "1 \<le> a"
  shows "a ^ 12 \<le> a powr (73 / 6)" and "a powr (73 / 6) \<le> a ^ 13"
proof -
  have a: "0 < a" using assms by simp
  have "a powr (real 12) \<le> a powr (73 / 6)" by (rule powr_mono [OF _ assms]) simp
  then show "a ^ 12 \<le> a powr (73 / 6)" by (simp only: powr_realpow [OF a])
  have "a powr (73 / 6) \<le> a powr (real 13)" by (rule powr_mono [OF _ assms]) simp
  then show "a powr (73 / 6) \<le> a ^ 13" by (simp only: powr_realpow [OF a])
qed

lemma pow_input_close:
  fixes A A0 Y0 :: rat
  assumes A0: "1 \<le> A0" "A0 \<le> 11 / 10"
    and A: "1 \<le> A" "A0 / A - 1 \<le> 1 / 2 ^ 52" "A / A0 - 1 \<le> 1 / 2 ^ 52"
    and Y0: "\<bar>Y0 - 73 / 6\<bar> \<le> 1 / 2 ^ 50"
    and t: "real_of_rat A ^ 13 \<le> 19 / 10"
    and acc: "pow_accurate pw (Fin A0) (Fin Y0)"
  shows "\<exists>p. pw (Fin A0) (Fin Y0) = Fin p \<and>
             \<bar>real_of_rat p - real_of_rat A powr (73 / 6)\<bar> \<le> 1 / 2 ^ 38"
proof -
  let ?s = "real_of_rat A0 powr real_of_rat Y0"
  let ?t = "real_of_rat A powr (73 / 6)"
  from acc obtain p where p: "pw (Fin A0) (Fin Y0) = Fin p"
    "\<bar>real_of_rat p - ?s\<bar> \<le> ?s / 2 ^ 40"
    unfolding pow_accurate_def val.simps by blast
  have rA: "1 \<le> real_of_rat A" using A(1) by (metis of_rat_less_eq of_rat_1)
  have tu: "?t \<le> 19 / 10" using powr_73_6_bounds(2) [OF rA] t by linarith
  have tl: "0 \<le> ?t" by simp
  have 1: "1 \<le> real_of_rat A0" using A0(1) by (metis of_rat_less_eq of_rat_1)
  have 2: "0 < real_of_rat A" using rA by linarith
  have 3: "real_of_rat A0 - 1 \<le> 1 / 10"
    using of_rat_less_eq [of A0 "11 / 10", where ?'a = real] A0(2) by (simp add: of_rat_divide)
  have 4: "\<bar>real_of_rat Y0 - 73 / 6\<bar> \<le> 1 / 2 ^ 50"
    using of_rat_abs_le [OF Y0] by (simp add: of_rat_divide of_rat_power)
  have 5: "real_of_rat A0 / real_of_rat A - 1 \<le> 1 / 2 ^ 52"
    using of_rat_less_eq [of "A0 / A - 1" "1 / 2 ^ 52", where ?'a = real] A(2)
    by (simp add: of_rat_divide of_rat_diff of_rat_power)
  have 6: "real_of_rat A / real_of_rat A0 - 1 \<le> 1 / 2 ^ 52"
    using of_rat_less_eq [of "A / A0 - 1" "1 / 2 ^ 52", where ?'a = real] A(3)
    by (simp add: of_rat_divide of_rat_diff of_rat_power)
  define E :: real where "E = 1 / 2 ^ 46"
  define F :: real where "F = 1 / 2 ^ 39"
  define G :: real where "G = 1 / 2 ^ 38"
  have EF: "0 \<le> E" "E \<le> 1 / 10" "F + E \<le> G" by (simp_all add: E_def F_def G_def)
  have "\<bar>?s - ?t\<bar> \<le> 2 * (1 / 2 ^ 48) * ?t"
    by (rule powr_close [OF 1 2 3 4 5 6, of 13]) simp_all
  also have "\<dots> \<le> 2 * (1 / 2 ^ 48) * 2"
    using tu by (intro mult_left_mono) simp_all
  also have "\<dots> = E" by (simp add: E_def)
  finally have c: "\<bar>?s - ?t\<bar> \<le> E" .
  then have s2: "?s \<le> 2" using tu EF(2) unfolding abs_le_iff by linarith
  have "?s / 2 ^ 40 \<le> 2 / 2 ^ 40" using s2 by (simp add: divide_right_mono)
  also have "\<dots> = F" by (simp add: F_def)
  finally have "\<bar>real_of_rat p - ?s\<bar> \<le> F" using p(2) by linarith
  with c EF(3) have "\<bar>real_of_rat p - ?t\<bar> \<le> G" by argo
  with p(1) show ?thesis by (auto simp: G_def)
qed

lemma annualized_close:
  fixes p :: rat and t :: real
  assumes "\<bar>real_of_rat p - t\<bar> \<le> 1 / 2 ^ 38" "126 / 100 \<le> t" "t \<le> 19 / 10"
  shows "\<exists>r. fmul (fsub (Fin p) (Fin 1)) (Fin 100) = Fin r \<and>
             \<bar>real_of_rat r - (t - 1) * 100\<bar> \<le> 1 / 2 ^ 30"
proof -
  define u :: rat where "u = 1 / 2 ^ 43"
  define U :: real where "U = 1 / 2 ^ 43"
  define V :: real where "V = 1 / 2 ^ 38"
  define W :: real where "W = 1 / 2 ^ 30"
  have u: "0 \<le> u" "u \<le> 1 / 100" by (simp_all add: u_def)
  have UV: "V \<le> 1 / 100" "101 * U + 100 * V \<le> W" by (simp_all add: U_def V_def W_def)
  have uU: "real_of_rat u = U" by (simp add: u_def U_def of_rat_divide of_rat_power)
  have pt: "\<bar>real_of_rat p - t\<bar> \<le> V" using assms(1) by (simp only: V_def)
  with UV(1) assms(2,3) have "125 / 100 \<le> real_of_rat p" "real_of_rat p \<le> 2"
    by linarith+
  then have "real_of_rat (5 / 4) \<le> real_of_rat p" "real_of_rat p \<le> real_of_rat 2"
    by (simp_all add: of_rat_divide)
  then have pb: "5 / 4 \<le> p" "p \<le> 2"
    by (simp_all only: of_rat_less_eq)
  then have "1 / 4 \<le> p - 1" "p - 1 \<le> 1024" by linarith+
  from fsub_range [OF this] obtain s
    where s: "fsub (Fin p) (Fin 1) = Fin s" "\<bar>s - (p - 1)\<bar> \<le> u"
    unfolding u_def by blast
  have sb: "1 / 8 \<le> s" "s \<le> 2" using s(2) pb u by linarith+
  then have "0 < s" "(0::rat) < 100" "1 / 4 \<le> s * 100" "s * 100 \<le> 1024" by linarith+
  from fmul_range [OF this] obtain r
    where r: "fmul (Fin s) (Fin 100) = Fin r" "\<bar>r - s * 100\<bar> \<le> u"
    unfolding u_def by blast
  have e1: "\<bar>real_of_rat s - (real_of_rat p - 1)\<bar> \<le> U"
    using of_rat_abs_le [OF s(2)] by (simp add: of_rat_diff uU)
  have e2: "\<bar>real_of_rat r - real_of_rat s * 100\<bar> \<le> U"
    using of_rat_abs_le [OF r(2)] by (simp add: of_rat_mult uU)
  have "\<bar>real_of_rat r - (t - 1) * 100\<bar> \<le> W"
    using e1 e2 pt UV(2) by argo
  with s(1) r(1) show ?thesis by (auto simp: W_def)
qed

lemma ideal_pow_accurate:
  assumes "1 \<le> A0" "A0 \<le> 2" "0 \<le> Y0" "Y0 \<le> 1000"
  shows "pow_accurate ideal_pow (Fin A0) (Fin Y0)"
proof -
  let ?s = "real_of_rat A0 powr real_of_rat Y0"
  have a: "1 \<le> real_of_rat A0" "real_of_rat A0 \<le> 2"
    using assms(1,2) of_rat_less_eq [of 1 A0, where ?'a = real]
      of_rat_less_eq [of A0 2, where ?'a = real] by simp_all
  have y: "0 \<le> real_of_rat Y0" "real_of_rat Y0 \<le> real 1000"
    using assms(3,4) of_rat_less_eq [of 0 Y0, where ?'a = real]
      of_rat_less_eq [of Y0 1000, where ?'a = real] by simp_all
  have lo: "1 \<le> ?s" by (rule ge_one_powr_ge_zero [OF a(1) y(1)])
  have "?s \<le> real_of_rat A0 powr real 1000" by (rule powr_mono [OF y(2) a(1)])
  also have "\<dots> \<le> 2 powr real 1000" using a by (intro powr_mono2) simp_all
  also have "\<dots> = 2 ^ 1000" by (rule powr_realpow) simp
  also have "\<dots> \<le> (2::real) ^ 1023" by (rule power_increasing) simp_all
  finally have hi: "?s \<le> 2 ^ 1023" .
  have "pow2 (- 1022) \<le> (pow2 0 :: real)" by (rule pow2_mono) simp
  then have lo': "pow2 (- 1022) \<le> ?s" using lo by (simp add: pow2_def)
  from rnd_real_normal [OF lo' hi, of False] obtain r
    where r: "rnd_real False ?s = Fin r" "\<bar>real_of_rat r - ?s\<bar> \<le> ?s / 2 ^ 53" by auto
  have "?s / 2 ^ 53 \<le> ?s / 2 ^ 40" using lo by (intro divide_left_mono) simp_all
  with r(2) have "\<bar>real_of_rat r - ?s\<bar> \<le> ?s / 2 ^ 40" by linarith
  moreover have "ideal_pow (Fin A0) (Fin Y0) = rnd_real False ?s"
    using assms(1) a(1) by (simp add: ideal_pow_def)
  ultimately show ?thesis
    unfolding pow_accurate_def val.simps using r(1) by auto
qed


lemma lit_102: "js_lit (102 / 100) = Fin (2296835809958953 / 2251799813685248)"
  by (simp add: rnd_eval)

lemma lit_30: "js_lit 30 = Fin 30"
  by (simp add: rnd_eval)

lemma lit_1: "js_lit 1 = Fin 1"
  by (simp add: rnd_eval)

lemma lit_15: "js_lit (15 / 10) = Fin (3 / 2)"
  by (simp add: rnd_eval)

lemma div_365_30: "fdiv (Fin 365) (Fin 30) = Fin (6849224433292629 / 562949953421312)"
  by (simp add: rnd_eval fdiv_def)

lemma js_pow_positive:
  assumes "0 < b" "0 < y"
  shows "js_pow pw (Fin b) (Fin y) = pw (Fin b) (Fin y)"
  using assms by (simp add: js_pow_def)


lemma net_borrow_008:
  "fsub (fmul (js_lit (8 / 100)) (Fin (3 / 2))) (js_lit (2 / 100))
     = Fin (7205759403792793 / 72057594037927936)"
  by (simp add: rnd_eval op_eval)

lemma arb_102: "fdiv (js_lit (102 / 100)) (js_lit 1) = Fin (2296835809958953 / 2251799813685248)"
  by (simp add: rnd_eval fdiv_def)

lemma net_delta_close:
  fixes r :: rat and t :: real
  assumes "\<bar>real_of_rat r - (t - 1) * 100\<bar> \<le> 1 / 2 ^ 30" "126 / 100 \<le> t" "t \<le> 19 / 10"
  shows "\<exists>f. fsub (fmul (Fin r) (Fin (3 / 2))) (Fin (7205759403792793 / 72057594037927936)) = Fin f \<and>
             \<bar>real_of_rat f - ((t - 1) * 100 * (3 / 2) - 1 / 10)\<bar> \<le> 1 / 2 ^ 29"
proof -
  let ?n = "7205759403792793 / 72057594037927936 :: rat"
  define u :: rat where "u = 1 / 2 ^ 43"
  define U :: real where "U = 1 / 2 ^ 43"
  define V :: real where "V = 1 / 2 ^ 30"
  define W :: real where "W = 1 / 2 ^ 29"
  define N :: real where "N = real_of_rat ?n"
  have u: "0 \<le> u" "u \<le> 1 / 100" by (simp_all add: u_def)
  have UV: "V \<le> 1 / 100" "\<bar>N - 1 / 10\<bar> \<le> U" "3 * U + 3 / 2 * V \<le> W"
    by (simp_all add: U_def V_def W_def N_def of_rat_divide)
  have uU: "real_of_rat u = U" by (simp add: u_def U_def of_rat_divide of_rat_power)
  have rt: "\<bar>real_of_rat r - (t - 1) * 100\<bar> \<le> V" using assms(1) by (simp only: V_def)
  with UV(1) assms(2,3) have "25 \<le> real_of_rat r" "real_of_rat r \<le> 91"
    by argo+
  then have "real_of_rat 25 \<le> real_of_rat r" "real_of_rat r \<le> real_of_rat 91"
    by simp_all
  then have rb: "25 \<le> r" "r \<le> 91"
    by (simp_all only: of_rat_less_eq)
  then have "0 < r" "(0::rat) < 3 / 2" "1 / 4 \<le> r * (3 / 2)" "r * (3 / 2) \<le> 1024" by linarith+
  from fmul_range [OF this] obtain x
    where x: "fmul (Fin r) (Fin (3 / 2)) = Fin x" "\<bar>x - r * (3 / 2)\<bar> \<le> u"
    unfolding u_def by blast
  have xb: "37 \<le> x" "x \<le> 137" using x(2) rb u by linarith+
  then have "1 / 4 \<le> x - ?n" "x - ?n \<le> 1024" by simp_all
  from fsub_range [OF this] obtain f
    where f: "fsub (Fin x) (Fin ?n) = Fin f" "\<bar>f - (x - ?n)\<bar> \<le> u"
    unfolding u_def by blast
  have e1: "\<bar>real_of_rat x - real_of_rat r * (3 / 2)\<bar> \<le> U"
    using of_rat_abs_le [OF x(2)] by (simp add: of_rat_mult of_rat_divide uU)
  have e2: "\<bar>real_of_rat f - (real_of_rat x - N)\<bar> \<le> U"
    using of_rat_abs_le [OF f(2)] by (simp add: of_rat_diff uU N_def)
  have "\<bar>real_of_rat f - ((t - 1) * 100 * (3 / 2) - 1 / 10)\<bar> \<le> W"
    using e1 e2 rt UV(2,3) by argo
  with x(1) f(1) show ?thesis by (auto simp: W_def)
qed

lemma pipeline_102:
  assumes q: "queryUsdcSupplyRate res = Inr (js_lit (2 / 100))"
    and acc: "pow_accurate pw (fdiv (js_lit (102 / 100)) (js_lit 1)) (fdiv (Fin 365) (js_lit 30))"
  shows "\<exists>v.
    bind_result (calcArb (js_lit (102 / 100)) (js_lit 1)) (\<lambda>arb.
    bind_result (calcAnnualizedArb pw arb (js_lit 30)) (\<lambda>annualizedArb.
    bind_result (calcNetBorrowRate res (js_lit (8 / 100)) (js_lit (15 / 10))) (\<lambda>netBorrowRate.
    calcNetDeltaNeutral annualizedArb (js_lit (15 / 10)) netBorrowRate))) = Inr (Fin v) \<and>
    \<bar>real_of_rat v - (((51 / 50) powr (73 / 6) - 1) * 100 * (3 / 2) - 1 / 10)\<bar> \<le> 1 / 2 ^ 29"
proof -
  let ?A = "2296835809958953 / 2251799813685248 :: rat"
  let ?Y = "6849224433292629 / 562949953421312 :: rat"
  let ?t = "(51 / 50 :: real) powr (73 / 6)"
  have acc': "pow_accurate pw (Fin ?A) (Fin ?Y)"
    using acc by (simp only: arb_102 lit_30 div_365_30)
  have t: "real_of_rat (51 / 50) = 51 / 50" by (simp add: of_rat_divide)
  have "\<exists>p. pw (Fin ?A) (Fin ?Y) = Fin p \<and>
      \<bar>real_of_rat p - real_of_rat (51 / 50) powr (73 / 6)\<bar> \<le> 1 / 2 ^ 38"
    by (rule pow_input_close [OF _ _ _ _ _ _ _ acc']) (simp_all add: t power_divide)
  then obtain p where p: "pw (Fin ?A) (Fin ?Y) = Fin p" "\<bar>real_of_rat p - ?t\<bar> \<le> 1 / 2 ^ 38"
    unfolding t by blast
  have "(51 / 50 :: real) ^ 12 \<le> ?t" "?t \<le> (51 / 50) ^ 13"
    by (rule powr_73_6_bounds; simp)+
  then have tb: "126 / 100 \<le> ?t" "?t \<le> 19 / 10" by (simp_all add: power_divide)
  from annualized_close [OF p(2) tb] obtain r
    where r: "fmul (fsub (Fin p) (Fin 1)) (Fin 100) = Fin r"
      "\<bar>real_of_rat r - (?t - 1) * 100\<bar> \<le> 1 / 2 ^ 30" by blast
  from net_delta_close [OF r(2) tb] obtain f
    where f: "fsub (fmul (Fin r) (Fin (3 / 2))) (Fin (7205759403792793 / 72057594037927936)) = Fin f"
      "\<bar>real_of_rat f - ((?t - 1) * 100 * (3 / 2) - 1 / 10)\<bar> \<le> 1 / 2 ^ 29" by blast
  have "js_pow pw (Fin ?A) (Fin ?Y) = Fin p"
    using p(1) by (simp add: js_pow_positive)
  then have a: "calcAnnualizedArb pw (Fin ?A) (js_lit 30) = Inr (Fin r)"
    unfolding calcAnnualizedArb_def lit_30 div_365_30 using r(1) by simp
  have n: "calcNetBorrowRate res (js_lit (8 / 100)) (Fin (3 / 2))
      = Inr (Fin (7205759403792793 / 72057594037927936))"
    unfolding calcNetBorrowRate_def q bind_result_def sum.case net_borrow_008 by (rule refl)
  have "bind_result (calcArb (js_lit (102 / 100)) (js_lit 1)) (\<lambda>arb.
    bind_result (calcAnnualizedArb pw arb (js_lit 30)) (\<lambda>annualizedArb.
    bind_result (calcNetBorrowRate res (js_lit (8 / 100)) (js_lit (15 / 10))) (\<lambda>netBorrowRate.
    calcNetDeltaNeutral annualizedArb (js_lit (15 / 10)) netBorrowRate))) = Inr (Fin f)"
    unfolding calcArb_def arb_102 lit_15 n bind_result_def sum.case a calcNetDeltaNeutral_def f(1)
    by (rule refl)
  with f(2) show ?thesis by blast
qed













text \<open>
  C1. With the spot price \<open>1.0\<close>, the redemption rate \<open>1.02\<close>, the redemption
  period \<open>30\<close>, the borrow rate \<open>0.08\<close>, the supply rate \<open>0.02\<close> and the collateral
  ratio \<open>1.5\<close>, the composition of \<^verbatim>\<open>calcArb\<close>, \<^verbatim>\<open>calcAnnualizedArb\<close>,
  \<^verbatim>\<open>calcNetBorrowRate\<close> and \<^verbatim>\<open>calcNetDeltaNeutral\<close> returns a number within the
  relative tolerance \<open>10^-9\<close> of the real number
  \<open>((1.02/1.0)^(365/30) - 1) * 100 * 1.5 - (0.08 * 1.5 - 0.02)\<close>, on every engine
  whose \<^verbatim>\<open>**\<close> is accurate at that point.
\<close>

theorem pipeline_value:
  assumes "queryUsdcSupplyRate res = Inr (js_lit (2 / 100))"
    and "pow_accurate pw (fdiv (js_lit (102 / 100)) (js_lit 1)) (fdiv (Fin 365) (js_lit 30))"
  shows "\<exists>v.
    bind_result (calcArb (js_lit (102 / 100)) (js_lit 1)) (\<lambda>arb.
    bind_result (calcAnnualizedArb pw arb (js_lit 30)) (\<lambda>annualizedArb.
    bind_result (calcNetBorrowRate res (js_lit (8 / 100)) (js_lit (15 / 10))) (\<lambda>netBorrowRate.
    calcNetDeltaNeutral annualizedArb (js_lit (15 / 10)) netBorrowRate))) = Inr (Fin v) \<and>
    \<bar>real_of_rat v
       - (((102 / 100 / 1) powr (365 / 30) - 1) * 100 * (15 / 10) - (8 / 100 * (15 / 10) - 2 / 100))\<bar>
      \<le> \<bar>((102 / 100 / 1) powr (365 / 30) - 1) * 100 * (15 / 10) - (8 / 100 * (15 / 10) - 2 / 100)\<bar>
          / 10 ^ 9"
proof -
  let ?V = "((51 / 50 :: real) powr (73 / 6) - 1) * 100 * (3 / 2) - 1 / 10"
  from pipeline_102 [OF assms] obtain v
    where v: "bind_result (calcArb (js_lit (102 / 100)) (js_lit 1)) (\<lambda>arb.
      bind_result (calcAnnualizedArb pw arb (js_lit 30)) (\<lambda>annualizedArb.
      bind_result (calcNetBorrowRate res (js_lit (8 / 100)) (js_lit (15 / 10))) (\<lambda>netBorrowRate.
      calcNetDeltaNeutral annualizedArb (js_lit (15 / 10)) netBorrowRate))) = Inr (Fin v)"
      "\<bar>real_of_rat v - ?V\<bar> \<le> 1 / 2 ^ 29" by blast
  have "(51 / 50 :: real) ^ 12 \<le> (51 / 50) powr (73 / 6)"
    by (rule powr_73_6_bounds) simp
  then have "126 / 100 \<le> (51 / 50 :: real) powr (73 / 6)"
    by (simp add: power_divide)
  then have "38 \<le> ?V" by argo
  with v(2) have e: "\<bar>real_of_rat v - ?V\<bar> \<le> \<bar>?V\<bar> / 10 ^ 9"
    by (rule relative_from_absolute) simp_all
  have "((102 / 100 / 1 :: real) powr (365 / 30) - 1) * 100 * (15 / 10) - (8 / 100 * (15 / 10) - 2 / 100)
      = ?V" by simp
  with v(1) e show ?thesis by auto
qed

theorem pipeline_value_witness:
  "queryUsdcSupplyRate
     (Inr (Arr [Obj [(''asset'', Str ''USDC''), (''supply_apy'', Str ''0.02'')]]))
     = Inr (js_lit (2 / 100)) \<and>
   pow_accurate ideal_pow (fdiv (js_lit (102 / 100)) (js_lit 1)) (fdiv (Fin 365) (js_lit 30)) \<and>
   (\<exists>v.
    bind_result (calcArb (js_lit (102 / 100)) (js_lit 1)) (\<lambda>arb.
    bind_result (calcAnnualizedArb ideal_pow arb (js_lit 30)) (\<lambda>annualizedArb.
    bind_result (calcNetBorrowRate
      (Inr (Arr [Obj [(''asset'', Str ''USDC''), (''supply_apy'', Str ''0.02'')]]))
      (js_lit (8 / 100)) (js_lit (15 / 10))) (\<lambda>netBorrowRate.
    calcNetDeltaNeutral annualizedArb (js_lit (15 / 10)) netBorrowRate))) = Inr (Fin v) \<and>
    \<bar>real_of_rat v
       - (((102 / 100 / 1) powr (365 / 30) - 1) * 100 * (15 / 10) - (8 / 100 * (15 / 10) - 2 / 100))\<bar>
      \<le> \<bar>((102 / 100 / 1) powr (365 / 30) - 1) * 100 * (15 / 10) - (8 / 100 * (15 / 10) - 2 / 100)\<bar>
          / 10 ^ 9)"
proof -
  have q: "queryUsdcSupplyRate
     (Inr (Arr [Obj [(''asset'', Str ''USDC''), (''supply_apy'', Str ''0.02'')]]))
     = Inr (js_lit (2 / 100))"
    apply (simp add: query_eval parse_eval)
    apply (simp add: rnd_eval)
    done
  have a: "pow_accurate ideal_pow (fdiv (js_lit (102 / 100)) (js_lit 1)) (fdiv (Fin 365) (js_lit 30))"
    unfolding arb_102 lit_30 div_365_30 by (rule ideal_pow_accurate) simp_all
  show ?thesis
    using q a pipeline_value [OF q a] by blast
qed

end
